theory Spec2Isabelle
  imports Main "HOL-Library.Sublist" "HOL-Library.Word"
begin

section \<open>The session layer of the telemetry client (src/admin/admin_client.py)\<close>

text \<open>
  The class \<^verbatim>\<open>TelemetryInterface\<close> keeps a socket, two flags and a dictionary of
  five telemetry strings, and it reads the server's text in a background thread.
  The embedding passes the object's fields along as a record, records every operation
  on the socket and every call into the display layer in two traces, and returns a
  Python exception as the left summand of a sum.

  Text is a list of characters as Python's \<^verbatim>\<open>str\<close> after \<^verbatim>\<open>decode()\<close>; a
  \<^typ>\<open>char\<close> stands for a code point below 256. Bytes are 8-bit words. The pauses (\<^verbatim>\<open>time.sleep\<close>) and
  the \<^verbatim>\<open>print\<close> of \<^verbatim>\<open>send_command\<close> have no counterpart, and the calls into the
  display layer are recorded, not run: they are taken not to raise.
\<close>

subsection \<open>Python string operations used by the client\<close>

text \<open>\<^verbatim>\<open>str.isspace\<close> on the code points below 256: TAB to CR, FS to US, space, NEL, NBSP.\<close>

definition py_whitespace :: "char list" where
  "py_whitespace =
     [CHR 0x09, CHR 0x0A, CHR 0x0B, CHR 0x0C, CHR 0x0D,
      CHR 0x1C, CHR 0x1D, CHR 0x1E, CHR 0x1F, CHR 0x20, CHR 0x85, CHR 0xA0]"

text \<open>\<^verbatim>\<open>s.strip(chars)\<close>: drop leading and trailing characters that occur in \<open>chars\<close>.\<close>

definition lstrip_chars :: "char list \<Rightarrow> string \<Rightarrow> string" where
  "lstrip_chars cs s = dropWhile (\<lambda>c. c \<in> set cs) s"

definition strip_chars :: "char list \<Rightarrow> string \<Rightarrow> string" where
  "strip_chars cs s = rev (lstrip_chars cs (rev (lstrip_chars cs s)))"

text \<open>\<^verbatim>\<open>s.strip()\<close>\<close>

definition strip :: "string \<Rightarrow> string" where
  "strip s = strip_chars py_whitespace s"

text \<open>\<^verbatim>\<open>s.split(sep)\<close> for a separator of one character: one more part than separators.\<close>

fun split_chr :: "char \<Rightarrow> string \<Rightarrow> string list" where
  "split_chr sep [] = [[]]"
| "split_chr sep (c # cs) =
     (if c = sep then [] # split_chr sep cs
      else (case split_chr sep cs of
              [] \<Rightarrow> [[c]]
            | part # parts \<Rightarrow> (c # part) # parts))"

text \<open>
  \<^verbatim>\<open>s.replace(old, new)\<close> for a non-empty \<open>old\<close>: every occurrence found scanning from
  the left, occurrences not overlapping.
\<close>

fun replace :: "string \<Rightarrow> string \<Rightarrow> string \<Rightarrow> string" where
  "replace old new [] = []"
| "replace old new (c # cs) =
     (if old \<noteq> [] \<and> prefix old (c # cs)
      then new @ replace old new (drop (length old - 1) cs)
      else c # replace old new cs)"

text \<open>\<^verbatim>\<open>s.endswith(suffix)\<close> is \<^const>\<open>suffix\<close>, \<^verbatim>\<open>sub in s\<close> is \<^const>\<open>sublist\<close>.\<close>

definition newline :: char where
  "newline = CHR 0x0A"

subsection \<open>Exceptions\<close>

datatype py_exc =
    IndexError
  | ValueError nat nat
  | AttributeError
  | UnicodeDecodeError
  | SocketTimeout
  | ConnectionRefusedError
  | OtherError string

text \<open>\<^verbatim>\<open>xs[1]\<close>\<close>

definition index1 :: "'a list \<Rightarrow> py_exc + 'a" where
  "index1 xs = (if 1 < length xs then Inr (xs ! 1) else Inl IndexError)"

text \<open>
  \<^verbatim>\<open>dict(seq)\<close> on a list of lists: every element must have length 2, a later pair
  overrides an earlier one with the same key. \<open>ValueError i n\<close> is "dictionary update
  sequence element #i has length n; 2 is required".
\<close>

fun py_dict :: "nat \<Rightarrow> (string \<rightharpoonup> string) \<Rightarrow> string list list \<Rightarrow> py_exc + (string \<rightharpoonup> string)" where
  "py_dict i m [] = Inr m"
| "py_dict i m (x # xs) =
     (case x of
        [k, v] \<Rightarrow> py_dict (Suc i) (m(k \<mapsto> v)) xs
      | _ \<Rightarrow> Inl (ValueError i (length x)))"

text \<open>\<^verbatim>\<open>d.get(key, default)\<close>\<close>

definition dict_get :: "(string \<rightharpoonup> string) \<Rightarrow> string \<Rightarrow> string \<Rightarrow> string" where
  "dict_get d k dflt = (case d k of None \<Rightarrow> dflt | Some v \<Rightarrow> v)"

subsection \<open>The object's state\<close>

text \<open>\<^verbatim>\<open>self.telemetry_data\<close>: a dictionary with five fixed keys.\<close>

record telemetry =
  direction :: string
  speed :: string
  battery :: string
  temperature :: string
  time :: string

text \<open>
  A log line is a fixed text, a text followed by a formatted exception
  (\<^verbatim>\<open>f"ERROR connecting: {e}"\<close>), or \<^verbatim>\<open>f"Connecting to {self.host}:{self.port}..."\<close>.
\<close>

datatype message = Text string | TextExc string py_exc | ConnectingTo string nat

text \<open>Calls into the display layer, and the way each one is made.\<close>

datatype ui_call =
    LogCommand message
  | UpdateTelemetryDisplay
  | ShowConnection bool
  | DisconnectCall

datatype effect =
    Direct ui_call
  | After ui_call
  | StartThread

text \<open>
  \<open>ShowConnection b\<close> is the status label and the two buttons configured for
  connected (\<open>b\<close>) or disconnected; \<open>DisconnectCall\<close> is \<^verbatim>\<open>self.disconnect\<close> handed over
  as a callback.
  \<open>Direct c\<close> is a call made in the running thread, \<open>After c\<close> is
  \<^verbatim>\<open>self.after(0, c)\<close>, which hands the call to the main loop of the display.
  \<open>StartThread\<close> is \<^verbatim>\<open>threading.Thread(target=self.receive_loop).start()\<close>.
\<close>

datatype sock_op =
    Settimeout "nat option"
  | Connect string nat
  | Send string
  | Close

text \<open>Which operations on the socket raise, and what: the environment of one call.\<close>

type_synonym sock_env = "sock_op \<Rightarrow> py_exc option"

record client =
  server_socket :: "nat option"
  host :: string
  port :: nat
  is_connected :: bool
  should_receive :: bool
  telemetry_data :: telemetry
  sock_ops :: "(nat \<times> sock_op) list"
  effects :: "effect list"

text \<open>\<^verbatim>\<open>__init__\<close>, \<open>now\<close> being the local time it reads.\<close>

definition init :: "string \<Rightarrow> client" where
  "init now =
     \<lparr> server_socket = None, host = ''127.0.0.1'', port = 9000,
       is_connected = False, should_receive = False,
       telemetry_data = \<lparr> direction = ''N'', speed = ''0.0'', battery = ''0.0'',
                          temperature = ''0.0'', time = now \<rparr>,
       sock_ops = [], effects = [] \<rparr>"

definition emit :: "effect \<Rightarrow> client \<Rightarrow> client" where
  "emit e s = s\<lparr>effects := effects s @ [e]\<rparr>"

text \<open>\<^verbatim>\<open>self.log_command(message)\<close> called in the running thread.\<close>

definition log_command :: "message \<Rightarrow> client \<Rightarrow> client" where
  "log_command m s = emit (Direct (LogCommand m)) s"

subsection \<open>Handling one line (the body of the inner loop of \<^verbatim>\<open>receive_loop\<close>)\<close>

text \<open>
  Lines 167 to 180: a line that contains \<^verbatim>\<open>TLM\<close>. First the list the comprehension
  builds, one \<^verbatim>\<open>x.split("=")\<close> for each part between semicolons.
\<close>

definition telemetry_pairs :: "string \<Rightarrow> string list list" where
  "telemetry_pairs line =
     (let telemetry_str = replace ''TLM '' '''' line
      in map (split_chr CHR ''='') (split_chr CHR '';'' telemetry_str))"

definition handle_telemetry :: "string \<Rightarrow> client \<Rightarrow> string \<Rightarrow> py_exc + client" where
  "handle_telemetry now s line =
     (case py_dict 0 Map.empty (telemetry_pairs line) of
        Inl e \<Rightarrow> Inl e
      | Inr tlm \<Rightarrow>
          Inr (emit (After UpdateTelemetryDisplay)
                (log_command (Text ''Telemetry received'')
                  (s\<lparr>telemetry_data :=
                       \<lparr> direction = dict_get tlm ''dir'' ''N'',
                         speed = dict_get tlm ''speed'' ''0.0'',
                         battery = dict_get tlm ''battery'' ''0.0'',
                         temperature = dict_get tlm ''temp'' ''0.0'',
                         time = dict_get tlm ''ts'' now \<rparr>\<rparr>))))"

text \<open>Lines 182 to 184 and 187 to 189: the value of a partial acknowledgement.\<close>

definition ack_value :: "string \<Rightarrow> py_exc + string" where
  "ack_value line = index1 (split_chr CHR ''='' (strip_chars ''OK '' line))"

definition handle_dir :: "client \<Rightarrow> string \<Rightarrow> py_exc + client" where
  "handle_dir s line =
     (case ack_value line of
        Inl e \<Rightarrow> Inl e
      | Inr direction' \<Rightarrow>
          Inr (emit (Direct UpdateTelemetryDisplay)
                (s\<lparr>telemetry_data := (telemetry_data s)\<lparr>direction := direction'\<rparr>\<rparr>)))"

definition handle_speed :: "client \<Rightarrow> string \<Rightarrow> py_exc + client" where
  "handle_speed s line =
     (case ack_value line of
        Inl e \<Rightarrow> Inl e
      | Inr speed' \<Rightarrow>
          Inr (emit (Direct UpdateTelemetryDisplay)
                (s\<lparr>telemetry_data := (telemetry_data s)\<lparr>speed := speed'\<rparr>\<rparr>)))"

text \<open>
  Lines 163 to 193: trim the line, then the chain of \<^verbatim>\<open>if\<close> and \<^verbatim>\<open>elif\<close>. An
  exception leaves the object as it was, since each branch raises before it assigns.
\<close>

definition handle_line :: "string \<Rightarrow> client \<Rightarrow> string \<Rightarrow> py_exc + client" where
  "handle_line now s raw =
     (let line = strip raw in
      if line \<noteq> [] \<and> sublist ''TLM'' line then handle_telemetry now s line
      else if line \<noteq> [] \<and> sublist ''dir'' line then handle_dir s line
      else if line \<noteq> [] \<and> sublist ''speed'' line then handle_speed s line
      else if line \<noteq> [] then Inr (emit (After (LogCommand (Text (''Server: '' @ line)))) s)
      else Inr s)"

subsection \<open>The socket\<close>

text \<open>One operation on socket \<open>k\<close>: it is recorded, and it raises what the environment says.\<close>

definition sock_do :: "sock_env \<Rightarrow> nat \<Rightarrow> sock_op \<Rightarrow> client \<Rightarrow> client \<times> py_exc option" where
  "sock_do env k op s = (s\<lparr>sock_ops := sock_ops s @ [(k, op)]\<rparr>, env op)"

text \<open>Sequencing inside a \<^verbatim>\<open>try\<close> block: the first exception ends the block.\<close>

definition and_then ::
  "client \<times> py_exc option \<Rightarrow> (client \<Rightarrow> client \<times> py_exc option) \<Rightarrow> client \<times> py_exc option" where
  "and_then r f = (case r of (s, None) \<Rightarrow> f s | (s, Some e) \<Rightarrow> (s, Some e))"

text \<open>\<^verbatim>\<open>cleanup_socket\<close>: an exception of \<^verbatim>\<open>close()\<close> is swallowed.\<close>

definition cleanup_socket :: "sock_env \<Rightarrow> client \<Rightarrow> client" where
  "cleanup_socket env s =
     (case server_socket s of
        None \<Rightarrow> s
      | Some k \<Rightarrow> (fst (sock_do env k Close s))\<lparr>server_socket := None\<rparr>)"

definition start_receive_thread :: "client \<Rightarrow> client" where
  "start_receive_thread s = emit StartThread (s\<lparr>should_receive := True\<rparr>)"

text \<open>
  The \<^verbatim>\<open>try\<close> block of \<^verbatim>\<open>connect\<close> (lines 64 to 88). \<open>new\<close> is what
  \<^verbatim>\<open>socket.socket(...)\<close> does: raise, or return the handle of a new socket.
\<close>

definition connect_try :: "py_exc + nat \<Rightarrow> sock_env \<Rightarrow> client \<Rightarrow> client \<times> py_exc option" where
  "connect_try new env s =
     (case new of
        Inl e \<Rightarrow> (s, Some e)
      | Inr k \<Rightarrow>
          and_then (and_then (and_then (and_then
            (sock_do env k (Settimeout (Some 5)) (s\<lparr>server_socket := Some k\<rparr>))
            (\<lambda>s. sock_do env k (Connect (host s) (port s))
                   (log_command (ConnectingTo (host s) (port s)) s)))
            (\<lambda>s. sock_do env k (Settimeout None) s))
            (\<lambda>s. sock_do env k (Send (''AUTH admin admin123'' @ [newline])) s))
            (\<lambda>s. (start_receive_thread
                    (log_command (Text ''Successfully connected to server'')
                      (emit (Direct (ShowConnection True)) (s\<lparr>is_connected := True\<rparr>))),
                   None)))"

text \<open>The three \<^verbatim>\<open>except\<close> clauses of \<^verbatim>\<open>connect\<close> (lines 90 to 98).\<close>

definition connect_error :: "py_exc \<Rightarrow> message" where
  "connect_error e =
     (case e of
        SocketTimeout \<Rightarrow> Text ''ERROR: Connection timeout''
      | ConnectionRefusedError \<Rightarrow> Text ''ERROR: Connection refused. Is the server running?''
      | _ \<Rightarrow> TextExc ''ERROR connecting: '' e)"

definition connect :: "py_exc + nat \<Rightarrow> sock_env \<Rightarrow> client \<Rightarrow> client" where
  "connect new env s =
     (if is_connected s then log_command (Text ''Already connected to server'') s
      else (case connect_try new env s of
              (s', None) \<Rightarrow> s'
            | (s', Some e) \<Rightarrow> cleanup_socket env (log_command (connect_error e) s')))"

text \<open>\<^verbatim>\<open>disconnect\<close>: an exception of the send of \<^verbatim>\<open>QUIT\<close> is swallowed.\<close>

definition disconnect :: "sock_env \<Rightarrow> client \<Rightarrow> client" where
  "disconnect env s =
     (if \<not> is_connected s then log_command (Text ''Already disconnected'') s
      else
        let s1 = (log_command (Text ''Disconnecting from server...'') s)\<lparr>should_receive := False\<rparr>;
            s2 = (case server_socket s1 of
                    None \<Rightarrow> s1
                  | Some k \<Rightarrow> fst (sock_do env k (Send (''QUIT'' @ [newline])) s1));
            s3 = cleanup_socket env s2;
            s4 = emit (Direct (ShowConnection False)) (s3\<lparr>is_connected := False\<rparr>)
        in log_command (Text ''Disconnected from server'') s4)"

text \<open>\<^verbatim>\<open>send_command\<close>: the returned flag, and the object afterwards.\<close>

definition send_command :: "sock_env \<Rightarrow> string \<Rightarrow> client \<Rightarrow> bool \<times> client" where
  "send_command env message s =
     (if \<not> is_connected s \<or> server_socket s = None
      then (False, log_command (Text ''ERROR: Not connected to server'') s)
      else
        let message' = (if suffix [newline] message then message else message @ [newline])
        in (case server_socket s of
              None \<Rightarrow> (False, s)
            | Some k \<Rightarrow>
                (case sock_do env k (Send message') s of
                   (s', None) \<Rightarrow> (True, s')
                 | (s', Some e) \<Rightarrow>
                     (False, disconnect env (log_command (TextExc ''ERROR sending command: '' e) s')))))"

subsection \<open>The buffer of \<^verbatim>\<open>receive_loop\<close>\<close>

text \<open>
  For the proofs about the loops below: lines 161 and 162 alone,
  \<^verbatim>\<open>while '\n' in buffer: line, buffer = buffer.split('\n', 1)\<close>, that is the complete
  lines of a buffer in order and the text behind the last newline.
\<close>

function drain :: "string \<Rightarrow> string list \<times> string" where
  "drain buffer =
     (if newline \<in> set buffer
      then (case drain (tl (dropWhile (\<lambda>c. c \<noteq> newline) buffer)) of
              (ls, rest) \<Rightarrow> (takeWhile (\<lambda>c. c \<noteq> newline) buffer # ls, rest))
      else ([], buffer))"
  by pat_completeness auto
termination
proof (relation "measure length")
  fix buffer :: string
  assume "newline \<in> set buffer"
  then have "dropWhile (\<lambda>c. c \<noteq> newline) buffer \<noteq> []"
    by simp
  then have "length (tl (dropWhile (\<lambda>c. c \<noteq> newline) buffer))
               < length (dropWhile (\<lambda>c. c \<noteq> newline) buffer)"
    by (cases "dropWhile (\<lambda>c. c \<noteq> newline) buffer") simp_all
  also have "\<dots> \<le> length buffer"
    by (rule length_dropWhile_le)
  finally show "(tl (dropWhile (\<lambda>c. c \<noteq> newline) buffer), buffer) \<in> measure length"
    by simp
qed simp

declare drain.simps [simp del]

text \<open>
  The inner loop as it is (lines 161 to 193): each line is handled as soon as it is
  split off, and an exception leaves the loop. \<open>clock n\<close> is the local time read while
  line number \<open>n\<close> of the connection is handled.
\<close>

function process_buffer ::
  "(nat \<Rightarrow> string) \<Rightarrow> nat \<Rightarrow> string \<Rightarrow> client \<Rightarrow> py_exc option \<times> nat \<times> string \<times> client" where
  "process_buffer clock n buffer s =
     (if newline \<in> set buffer
      then (case handle_line (clock n) s (takeWhile (\<lambda>c. c \<noteq> newline) buffer) of
              Inl e \<Rightarrow> (Some e, Suc n, tl (dropWhile (\<lambda>c. c \<noteq> newline) buffer), s)
            | Inr s' \<Rightarrow>
                process_buffer clock (Suc n) (tl (dropWhile (\<lambda>c. c \<noteq> newline) buffer)) s')
      else (None, n, buffer, s))"
  by pat_completeness auto
termination
proof (relation "measure (\<lambda>(clock, n, buffer, s). length buffer)")
  fix clock :: "nat \<Rightarrow> string" and n :: nat and buffer :: string and s s' :: client
  assume "newline \<in> set buffer"
  then have "dropWhile (\<lambda>c. c \<noteq> newline) buffer \<noteq> []"
    by simp
  then have "length (tl (dropWhile (\<lambda>c. c \<noteq> newline) buffer))
               < length (dropWhile (\<lambda>c. c \<noteq> newline) buffer)"
    by (cases "dropWhile (\<lambda>c. c \<noteq> newline) buffer") simp_all
  also have "\<dots> \<le> length buffer"
    by (rule length_dropWhile_le)
  finally show "((clock, Suc n, tl (dropWhile (\<lambda>c. c \<noteq> newline) buffer), s'), clock, n, buffer, s)
                  \<in> measure (\<lambda>(clock, n, buffer, s). length buffer)"
    by simp
qed simp

declare process_buffer.simps [simp del]

subsection \<open>The receive loop\<close>

text \<open>
  What \<^verbatim>\<open>self.server_socket.recv(1024).decode()\<close> gives in one iteration: text (empty
  when the peer has closed) or an exception.
\<close>

datatype recv = Data string | RecvError py_exc

text \<open>
  The \<^verbatim>\<open>except\<close> clause of the loop (lines 195 to 198); the \<^verbatim>\<open>break\<close> is the caller's.
  The two callbacks are handed over, not run: the first one reads \<^verbatim>\<open>e\<close> only when the
  main loop runs it, after the clause has ended.
\<close>

definition on_receive_error :: "py_exc \<Rightarrow> client \<Rightarrow> client" where
  "on_receive_error e s =
     (if should_receive s
      then emit (After DisconnectCall)
             (emit (After (LogCommand (TextExc ''ERROR receiving data: '' e))) s)
      else s)"

text \<open>
  One iteration of the outer loop (lines 149 to 199). The flag returned says whether the
  loop goes on; the triple is the number of lines handled, the buffer and the object.
\<close>

definition receive_once ::
  "(nat \<Rightarrow> string) \<Rightarrow> recv \<Rightarrow> nat \<times> string \<times> client \<Rightarrow> bool \<times> nat \<times> string \<times> client" where
  "receive_once clock r st =
     (case st of (n, buffer, s) \<Rightarrow>
        (case (case server_socket s of None \<Rightarrow> RecvError AttributeError | Some k \<Rightarrow> r) of
           RecvError e \<Rightarrow> (False, n, buffer, on_receive_error e s)
         | Data data \<Rightarrow>
             if data = []
             then (False, n, buffer,
                   emit (After DisconnectCall)
                     (emit (After (LogCommand (Text ''Server closed connection''))) s))
             else (case process_buffer clock n (buffer @ data) s of
                     (None, n', buffer', s') \<Rightarrow> (True, n', buffer', s')
                   | (Some e, n', buffer', s') \<Rightarrow> (False, n', buffer', on_receive_error e s'))))"

text \<open>
  The outer loop over the reads that return, in order. It runs in its own thread; the
  callbacks it hands over with \<^verbatim>\<open>after\<close> run later in the main loop, so the two flags
  do not change under it here.
\<close>

fun receive_loop ::
  "(nat \<Rightarrow> string) \<Rightarrow> recv list \<Rightarrow> nat \<times> string \<times> client \<Rightarrow> nat \<times> string \<times> client" where
  "receive_loop clock [] st = st"
| "receive_loop clock (r # rs) (n, buffer, s) =
     (if should_receive s \<and> is_connected s
      then (case receive_once clock r (n, buffer, s) of
              (True, st') \<Rightarrow> receive_loop clock rs st'
            | (False, st') \<Rightarrow> st')
      else (n, buffer, s))"

subsection \<open>Bytes\<close>

text \<open>
  \<^verbatim>\<open>bytes.decode()\<close>, that is UTF-8 read strictly, as far as the characters of the
  model go. A byte below 128 is its character; the lead bytes C2 and C3 with one
  continuation byte give the code points 128 to 255; a lead byte without its continuation
  and a byte that cannot start a character raise. The lead bytes C4 to F4 start code
  points from 256 on, which the model has no character for: there the result is
  \<open>None\<close>, and nothing is said.
\<close>

type_synonym byte = "8 word"

definition then_char :: "char \<Rightarrow> (py_exc + string) option \<Rightarrow> (py_exc + string) option" where
  "then_char c r =
     (case r of
        None \<Rightarrow> None
      | Some (Inl e) \<Rightarrow> Some (Inl e)
      | Some (Inr t) \<Rightarrow> Some (Inr (c # t)))"

fun decode :: "byte list \<Rightarrow> (py_exc + string) option" where
  "decode [] = Some (Inr [])"
| "decode (b # bs) =
     (if b < 0x80 then then_char (char_of (unat b)) (decode bs)
      else if b = 0xC2 \<or> b = 0xC3
        then (case bs of
                [] \<Rightarrow> Some (Inl UnicodeDecodeError)
              | c # cs \<Rightarrow>
                  if 0x80 \<le> c \<and> c < 0xC0
                  then then_char (char_of (64 * (unat b - 0xC0) + (unat c - 0x80))) (decode cs)
                  else Some (Inl UnicodeDecodeError))
      else if 0xC4 \<le> b \<and> b \<le> 0xF4 then None
      else Some (Inl UnicodeDecodeError))"

text \<open>
  What \<^verbatim>\<open>self.server_socket.recv(1024)\<close> gives, before \<^verbatim>\<open>.decode()\<close>: bytes (none when
  the peer has closed) or an exception. Line 150 decodes every read on its own.
\<close>

datatype recv_bytes = Bytes "byte list" | RecvRaises py_exc

definition read_of :: "recv_bytes \<Rightarrow> recv option" where
  "read_of r =
     (case r of
        RecvRaises e \<Rightarrow> Some (RecvError e)
      | Bytes bs \<Rightarrow>
          (case decode bs of
             None \<Rightarrow> None
           | Some (Inl e) \<Rightarrow> Some (RecvError e)
           | Some (Inr data) \<Rightarrow> Some (Data data)))"

text \<open>The receive loop on the bytes read; \<open>None\<close> when a read is outside the model.\<close>

definition receive_loop_bytes ::
  "(nat \<Rightarrow> string) \<Rightarrow> recv_bytes list \<Rightarrow> nat \<times> string \<times> client \<Rightarrow> (nat \<times> string \<times> client) option" where
  "receive_loop_bytes clock rs st =
     (case those (map read_of rs) of
        None \<Rightarrow> None
      | Some reads \<Rightarrow> Some (receive_loop clock reads st))"

subsection \<open>Lines one after the other\<close>

text \<open>
  A list of lines handled one after the other until one raises: what the inner loop does
  with the lines it splits off, written without the buffer.
\<close>

fun handle_lines ::
  "(nat \<Rightarrow> string) \<Rightarrow> nat \<Rightarrow> string list \<Rightarrow> client \<Rightarrow> py_exc option \<times> nat \<times> client" where
  "handle_lines clock n [] s = (None, n, s)"
| "handle_lines clock n (l # ls) s =
     (case handle_line (clock n) s l of
        Inl e \<Rightarrow> (Some e, Suc n, s)
      | Inr s' \<Rightarrow> handle_lines clock (Suc n) ls s')"

subsection \<open>The classification the specification describes\<close>

datatype kind = Telemetry | PartialDirectionAck | PartialSpeedAck | Log

text \<open>
  Section 4.4 of the specification read literally, on a trimmed line: the first match
  in the order telemetry marker, \<^verbatim>\<open>dir\<close>, \<^verbatim>\<open>speed\<close>, any other non-empty line; an empty
  line has no kind.
\<close>

definition spec_classify :: "string \<Rightarrow> kind option" where
  "spec_classify line =
     (if sublist ''TLM'' line then Some Telemetry
      else if sublist ''dir'' line then Some PartialDirectionAck
      else if sublist ''speed'' line then Some PartialSpeedAck
      else if line \<noteq> [] then Some Log
      else None)"

text \<open>
  The extraction rule the specification gives for both partial acknowledgements: the
  token after the last \<^verbatim>\<open>=\<close> in the line.
\<close>

definition spec_ack_value :: "string \<Rightarrow> string" where
  "spec_ack_value line = rev (takeWhile (\<lambda>c. c \<noteq> CHR ''='') (rev line))"

subsection \<open>Objects and environments to run the client on\<close>

text \<open>A new object connected to a server that accepts everything, the socket being number 0.\<close>

definition connected_client :: client where
  "connected_client = connect (Inr 0) (\<lambda>op. None) (init ''00:00:00'')"

text \<open>A clock that reads noon for every line.\<close>

definition noon :: "nat \<Rightarrow> string" where
  "noon n = ''12:00:00''"

text \<open>A server that refuses the connection: \<^verbatim>\<open>connect\<close> raises, nothing else does.\<close>

definition refusing :: sock_env where
  "refusing op = (case op of Connect h p \<Rightarrow> Some ConnectionRefusedError | _ \<Rightarrow> None)"

section \<open>Properties\<close>

subsection \<open>Dictionaries built from pairs\<close>

lemma py_dict_all_pairs:
  "\<forall>x\<in>set xs. length x = 2 \<Longrightarrow>
     \<exists>m'. py_dict i m xs = Inr m' \<and> (\<forall>k. k \<notin> hd ` set xs \<longrightarrow> m' k = m k)"
proof (induction xs arbitrary: i m)
  case Nil
  then show ?case by simp
next
  case (Cons x xs)
  from Cons.prems obtain k v where x: "x = [k, v]"
    by (cases x; cases "tl x") auto
  from Cons.prems have "\<forall>y\<in>set xs. length y = 2" by simp
  from Cons.IH [OF this, of "Suc i" "m(k \<mapsto> v)"]
  obtain m' where m': "py_dict (Suc i) (m(k \<mapsto> v)) xs = Inr m'"
    and keep: "\<forall>k'. k' \<notin> hd ` set xs \<longrightarrow> m' k' = (m(k \<mapsto> v)) k'"
    by blast
  show ?case
    using m' keep by (auto simp: x)
qed

subsection \<open>Full telemetry lines\<close>

lemma strip_full_line:
  "strip ''TLM speed=12.5;battery=73;ts=09:15:00;temp=41;dir=E'' =
     ''TLM speed=12.5;battery=73;ts=09:15:00;temp=41;dir=E''"
  by (simp add: strip_def strip_chars_def lstrip_chars_def py_whitespace_def)

lemma telemetry_full_line:
  "handle_line now s ''TLM speed=12.5;battery=73;ts=09:15:00;temp=41;dir=E'' =
     Inr (emit (After UpdateTelemetryDisplay)
           (log_command (Text ''Telemetry received'')
             (s\<lparr>telemetry_data :=
                  \<lparr> direction = ''E'', speed = ''12.5'', battery = ''73'',
                    temperature = ''41'', time = ''09:15:00'' \<rparr>\<rparr>)))"
  by (simp add: handle_line_def handle_telemetry_def telemetry_pairs_def strip_full_line
      sublist_code dict_get_def)

lemma telemetry_battery_only:
  "handle_line now s ''TLM battery=50'' =
     Inr (emit (After UpdateTelemetryDisplay)
           (log_command (Text ''Telemetry received'')
             (s\<lparr>telemetry_data :=
                  \<lparr> direction = ''N'', speed = ''0.0'', battery = ''50'',
                    temperature = ''0.0'', time = now \<rparr>\<rparr>)))"
  by (simp add: handle_line_def handle_telemetry_def telemetry_pairs_def strip_def
      strip_chars_def lstrip_chars_def py_whitespace_def sublist_code dict_get_def)

lemma telemetry_defaults:
  assumes tlm: "sublist ''TLM'' (strip raw)"
    and ok: "\<forall>x\<in>set (telemetry_pairs (strip raw)). length x = 2"
  shows "\<exists>s'. handle_line now s raw = Inr s' \<and>
     (''speed'' \<notin> hd ` set (telemetry_pairs (strip raw))
        \<longrightarrow> speed (telemetry_data s') = ''0.0'') \<and>
     (''battery'' \<notin> hd ` set (telemetry_pairs (strip raw))
        \<longrightarrow> battery (telemetry_data s') = ''0.0'') \<and>
     (''temp'' \<notin> hd ` set (telemetry_pairs (strip raw))
        \<longrightarrow> temperature (telemetry_data s') = ''0.0'') \<and>
     (''dir'' \<notin> hd ` set (telemetry_pairs (strip raw))
        \<longrightarrow> direction (telemetry_data s') = ''N'') \<and>
     (''ts'' \<notin> hd ` set (telemetry_pairs (strip raw))
        \<longrightarrow> time (telemetry_data s') = now)"
proof -
  from py_dict_all_pairs [OF ok, of 0 Map.empty]
  obtain tlm' where d: "py_dict 0 Map.empty (telemetry_pairs (strip raw)) = Inr tlm'"
    and absent: "\<forall>k. k \<notin> hd ` set (telemetry_pairs (strip raw)) \<longrightarrow> tlm' k = None"
    by auto
  from tlm have ne: "strip raw \<noteq> []" by auto
  have "handle_line now s raw = handle_telemetry now s (strip raw)"
    using tlm ne by (simp add: handle_line_def)
  then show ?thesis
    using d absent
    by (simp add: handle_telemetry_def dict_get_def emit_def log_command_def)
qed

text \<open>
  C3, as the code has it. The line \<^verbatim>\<open>TLM speed=12.5;battery=73;ts=09:15:00;temp=41;dir=E\<close> sets the five
  fields to 12.5, 73, 09:15:00, 41 and E. The line \<^verbatim>\<open>TLM battery=50\<close> sets the battery
  to 50 and every other field to its default, the time to the local time read. And for
  every line that contains the marker and whose parts between semicolons all split at
  \<^verbatim>\<open>=\<close> into a key and a value, handling succeeds and each field whose key is absent
  gets its default: speed, battery and temperature \<^verbatim>\<open>0.0\<close>, direction \<^verbatim>\<open>N\<close>, time
  the local time read.
\<close>

theorem C3_telemetry_fields_and_defaults:
  "(\<exists>s'. handle_line now s ''TLM speed=12.5;battery=73;ts=09:15:00;temp=41;dir=E'' = Inr s' \<and>
      telemetry_data s' =
        \<lparr> direction = ''E'', speed = ''12.5'', battery = ''73'',
          temperature = ''41'', time = ''09:15:00'' \<rparr>) \<and>
   (\<exists>s'. handle_line now s ''TLM battery=50'' = Inr s' \<and>
      telemetry_data s' =
        \<lparr> direction = ''N'', speed = ''0.0'', battery = ''50'',
          temperature = ''0.0'', time = now \<rparr>) \<and>
   (sublist ''TLM'' (strip raw) \<and> (\<forall>x\<in>set (telemetry_pairs (strip raw)). length x = 2) \<longrightarrow>
      (\<exists>s'. handle_line now s raw = Inr s' \<and>
         (''speed'' \<notin> hd ` set (telemetry_pairs (strip raw))
            \<longrightarrow> speed (telemetry_data s') = ''0.0'') \<and>
         (''battery'' \<notin> hd ` set (telemetry_pairs (strip raw))
            \<longrightarrow> battery (telemetry_data s') = ''0.0'') \<and>
         (''temp'' \<notin> hd ` set (telemetry_pairs (strip raw))
            \<longrightarrow> temperature (telemetry_data s') = ''0.0'') \<and>
         (''dir'' \<notin> hd ` set (telemetry_pairs (strip raw))
            \<longrightarrow> direction (telemetry_data s') = ''N'') \<and>
         (''ts'' \<notin> hd ` set (telemetry_pairs (strip raw))
            \<longrightarrow> time (telemetry_data s') = now)))"
proof (intro conjI impI)
  show "\<exists>s'. handle_line now s ''TLM speed=12.5;battery=73;ts=09:15:00;temp=41;dir=E'' = Inr s' \<and>
      telemetry_data s' =
        \<lparr> direction = ''E'', speed = ''12.5'', battery = ''73'',
          temperature = ''41'', time = ''09:15:00'' \<rparr>"
    by (simp add: telemetry_full_line emit_def log_command_def)
  show "\<exists>s'. handle_line now s ''TLM battery=50'' = Inr s' \<and>
      telemetry_data s' =
        \<lparr> direction = ''N'', speed = ''0.0'', battery = ''50'',
          temperature = ''0.0'', time = now \<rparr>"
    by (simp add: telemetry_battery_only emit_def log_command_def)
next
  assume "sublist ''TLM'' (strip raw) \<and> (\<forall>x\<in>set (telemetry_pairs (strip raw)). length x = 2)"
  then show "\<exists>s'. handle_line now s raw = Inr s' \<and>
         (''speed'' \<notin> hd ` set (telemetry_pairs (strip raw))
            \<longrightarrow> speed (telemetry_data s') = ''0.0'') \<and>
         (''battery'' \<notin> hd ` set (telemetry_pairs (strip raw))
            \<longrightarrow> battery (telemetry_data s') = ''0.0'') \<and>
         (''temp'' \<notin> hd ` set (telemetry_pairs (strip raw))
            \<longrightarrow> temperature (telemetry_data s') = ''0.0'') \<and>
         (''dir'' \<notin> hd ` set (telemetry_pairs (strip raw))
            \<longrightarrow> direction (telemetry_data s') = ''N'') \<and>
         (''ts'' \<notin> hd ` set (telemetry_pairs (strip raw))
            \<longrightarrow> time (telemetry_data s') = now)"
    using telemetry_defaults [of raw now s] by blast
qed

lemma pairs_battery_only: "telemetry_pairs (strip ''TLM battery=50'') = [[''battery'', ''50'']]"
  by (simp add: telemetry_pairs_def strip_def strip_chars_def lstrip_chars_def py_whitespace_def)

theorem C3_telemetry_fields_and_defaults_witness:
  "sublist ''TLM'' (strip ''TLM battery=50'') \<and>
   telemetry_pairs (strip ''TLM battery=50'') = [[''battery'', ''50'']] \<and>
   (\<exists>s'. handle_line ''12:00:00'' (init ''00:00:00'') ''TLM battery=50'' = Inr s' \<and>
      speed (telemetry_data s') = ''0.0'' \<and> temperature (telemetry_data s') = ''0.0'' \<and>
      direction (telemetry_data s') = ''N'' \<and> time (telemetry_data s') = ''12:00:00'')"
proof -
  have tlm: "sublist ''TLM'' (strip ''TLM battery=50'')"
    by (simp add: strip_def strip_chars_def lstrip_chars_def py_whitespace_def sublist_code)
  show ?thesis
    using C3_telemetry_fields_and_defaults
      [where now = "''12:00:00''" and s = "init ''00:00:00''" and raw = "''TLM battery=50''"] tlm
    by (simp add: pairs_battery_only)
qed

subsection \<open>Classification\<close>

lemma strip_decomp:
  "\<exists>pre post. raw = pre @ strip raw @ post \<and> set pre \<subseteq> set py_whitespace \<and>
      set post \<subseteq> set py_whitespace \<and>
      (strip raw = [] \<or> hd (strip raw) \<notin> set py_whitespace \<and> last (strip raw) \<notin> set py_whitespace)"
proof -
  let ?P = "\<lambda>c. c \<in> set py_whitespace"
  let ?l = "dropWhile ?P raw"
  have s: "strip raw = rev (dropWhile ?P (rev ?l))"
    by (simp add: strip_def strip_chars_def lstrip_chars_def)
  have 1: "raw = takeWhile ?P raw @ ?l" by simp
  have 2: "rev ?l = takeWhile ?P (rev ?l) @ dropWhile ?P (rev ?l)" by simp
  then have 3: "?l = strip raw @ rev (takeWhile ?P (rev ?l))"
    by (metis s rev_append rev_rev_ident)
  have pre: "set (takeWhile ?P raw) \<subseteq> set py_whitespace"
    by (auto dest: set_takeWhileD)
  have post: "set (rev (takeWhile ?P (rev ?l))) \<subseteq> set py_whitespace"
    by (auto dest: set_takeWhileD)
  have e: "strip raw = [] \<or> hd (strip raw) \<notin> set py_whitespace \<and> last (strip raw) \<notin> set py_whitespace"
  proof (cases "strip raw = []")
    case True
    then show ?thesis by simp
  next
    case False
    then have ne: "dropWhile ?P (rev ?l) \<noteq> []" by (simp add: s)
    then have la: "\<not> ?P (hd (dropWhile ?P (rev ?l)))"
      by (rule hd_dropWhile)
    then have last: "last (strip raw) \<notin> set py_whitespace"
      using ne by (simp add: s last_rev)
    from False 3 have "?l \<noteq> []" by (metis append_is_Nil_conv)
    then have "\<not> ?P (hd ?l)" by (rule hd_dropWhile)
    moreover have "hd ?l = hd (strip raw)"
      using 3 False by (metis hd_append2)
    ultimately show ?thesis using last by simp
  qed
  from 1 3 have "raw = takeWhile ?P raw @ strip raw @ rev (takeWhile ?P (rev ?l))"
    by metis
  with pre post e show ?thesis by blast
qed

lemma strip_unique:
  assumes "raw = pre @ line @ post" "set pre \<subseteq> set py_whitespace" "set post \<subseteq> set py_whitespace"
    and "line = [] \<or> hd line \<notin> set py_whitespace \<and> last line \<notin> set py_whitespace"
  shows "strip raw = line"
proof (cases "line = []")
  case True
  with assms have "\<forall>c\<in>set raw. c \<in> set py_whitespace" by auto
  then have d: "dropWhile (\<lambda>c. c \<in> set py_whitespace) raw = []"
    by (simp only: dropWhile_eq_Nil_conv)
  show ?thesis
    by (simp only: strip_def strip_chars_def lstrip_chars_def d True) simp
next
  case False
  let ?P = "\<lambda>c. c \<in> set py_whitespace"
  from False assms(4) obtain x xs where l: "line = x # xs" and x: "\<not> ?P x"
    by (cases line) auto
  from False assms(4) obtain ys y where r: "line = ys @ [y]" and y: "\<not> ?P y"
    by (cases line rule: rev_cases) auto
  have "dropWhile ?P raw = line @ post"
    using assms(1,2) l x by (simp add: dropWhile_append subset_iff)
  moreover have "dropWhile ?P (rev (line @ post)) = rev line"
    using assms(3) r y by (simp add: dropWhile_append subset_iff)
  ultimately show ?thesis
    by (simp add: strip_def strip_chars_def lstrip_chars_def)
qed

lemma handle_line_classify:
  "handle_line now s raw =
     (case spec_classify (strip raw) of
        Some Telemetry \<Rightarrow> handle_telemetry now s (strip raw)
      | Some PartialDirectionAck \<Rightarrow> handle_dir s (strip raw)
      | Some PartialSpeedAck \<Rightarrow> handle_speed s (strip raw)
      | Some Log \<Rightarrow>
          Inr (s\<lparr>effects := effects s @ [After (LogCommand (Text (''Server: '' @ strip raw)))]\<rparr>)
      | None \<Rightarrow> Inr s)"
  by (auto simp: handle_line_def spec_classify_def emit_def)

text \<open>
  C5, as the code has it. Every line is a run of whitespace, a trimmed line that is empty
  or begins and ends with other characters, and a run of whitespace again; however it is
  cut so, the trimmed line decides by the first match in the order of the specification:
  the telemetry branch when it contains the marker, else the direction branch when it
  contains \<^verbatim>\<open>dir\<close>, else the speed branch when it contains \<^verbatim>\<open>speed\<close>; any other
  non-empty trimmed line is handed to the log behind the label \<^verbatim>\<open>Server: \<close> and
  leaves the snapshot alone; an empty one changes nothing and causes no call.
\<close>

theorem C5_classification_order:
  "(\<exists>pre line post. raw = pre @ line @ post \<and>
       set pre \<subseteq> set py_whitespace \<and> set post \<subseteq> set py_whitespace \<and>
       (line = [] \<or> hd line \<notin> set py_whitespace \<and> last line \<notin> set py_whitespace)) \<and>
   (\<forall>pre line post. raw = pre @ line @ post \<and>
       set pre \<subseteq> set py_whitespace \<and> set post \<subseteq> set py_whitespace \<and>
       (line = [] \<or> hd line \<notin> set py_whitespace \<and> last line \<notin> set py_whitespace) \<longrightarrow>
       handle_line now s raw =
         (case spec_classify line of
            Some Telemetry \<Rightarrow> handle_telemetry now s line
          | Some PartialDirectionAck \<Rightarrow> handle_dir s line
          | Some PartialSpeedAck \<Rightarrow> handle_speed s line
          | Some Log \<Rightarrow>
              Inr (s\<lparr>effects := effects s @ [After (LogCommand (Text (''Server: '' @ line)))]\<rparr>)
          | None \<Rightarrow> Inr s))"
proof (intro conjI allI impI)
  show "\<exists>pre line post. raw = pre @ line @ post \<and>
       set pre \<subseteq> set py_whitespace \<and> set post \<subseteq> set py_whitespace \<and>
       (line = [] \<or> hd line \<notin> set py_whitespace \<and> last line \<notin> set py_whitespace)"
    using strip_decomp [of raw] by blast
next
  fix pre line post
  assume "raw = pre @ line @ post \<and>
       set pre \<subseteq> set py_whitespace \<and> set post \<subseteq> set py_whitespace \<and>
       (line = [] \<or> hd line \<notin> set py_whitespace \<and> last line \<notin> set py_whitespace)"
  then have "strip raw = line"
    using strip_unique [of raw pre line post] by blast
  then have l: "line = strip raw" by (rule sym)
  show "handle_line now s raw =
         (case spec_classify line of
            Some Telemetry \<Rightarrow> handle_telemetry now s line
          | Some PartialDirectionAck \<Rightarrow> handle_dir s line
          | Some PartialSpeedAck \<Rightarrow> handle_speed s line
          | Some Log \<Rightarrow>
              Inr (s\<lparr>effects := effects s @ [After (LogCommand (Text (''Server: '' @ line)))]\<rparr>)
          | None \<Rightarrow> Inr s)"
    unfolding l by (rule handle_line_classify)
qed

theorem C5_classification_order_witness:
  "set [CHR 0x09, CHR '' ''] \<subseteq> set py_whitespace \<and> set [CHR '' '', CHR 0x0D] \<subseteq> set py_whitespace \<and>
   hd ''hello'' \<notin> set py_whitespace \<and> last ''hello'' \<notin> set py_whitespace \<and>
   spec_classify ''hello'' = Some Log \<and>
   handle_line ''12:00:00'' connected_client ([CHR 0x09, CHR '' ''] @ ''hello'' @ [CHR '' '', CHR 0x0D]) =
     Inr (connected_client\<lparr>effects := effects connected_client
            @ [After (LogCommand (Text ''Server: hello''))]\<rparr>) \<and>
   set [CHR '' '', CHR 0x0A] \<subseteq> set py_whitespace \<and>
   spec_classify [] = None \<and>
   handle_line ''12:00:00'' connected_client [CHR '' '', CHR 0x0A] = Inr connected_client"
proof -
  have w: "set [CHR 0x09, CHR '' ''] \<subseteq> set py_whitespace" "set [CHR '' '', CHR 0x0D] \<subseteq> set py_whitespace"
      "set [CHR '' '', CHR 0x0A] \<subseteq> set py_whitespace"
    by (simp_all add: py_whitespace_def)
  have e: "hd ''hello'' \<notin> set py_whitespace" "last ''hello'' \<notin> set py_whitespace"
    by (simp_all add: py_whitespace_def)
  have c: "spec_classify ''hello'' = Some Log" "spec_classify [] = None"
    by (simp_all add: spec_classify_def sublist_code)
  note c5 = C5_classification_order [where now = "''12:00:00''" and s = connected_client]
  from c5 [where raw = "[CHR 0x09, CHR '' ''] @ ''hello'' @ [CHR '' '', CHR 0x0D]"] w e
  have "handle_line ''12:00:00'' connected_client ([CHR 0x09, CHR '' ''] @ ''hello'' @ [CHR '' '', CHR 0x0D]) =
         (case spec_classify ''hello'' of
            Some Telemetry \<Rightarrow> handle_telemetry ''12:00:00'' connected_client ''hello''
          | Some PartialDirectionAck \<Rightarrow> handle_dir connected_client ''hello''
          | Some PartialSpeedAck \<Rightarrow> handle_speed connected_client ''hello''
          | Some Log \<Rightarrow>
              Inr (connected_client\<lparr>effects := effects connected_client @ [After (LogCommand (Text (''Server: '' @ ''hello'')))]\<rparr>)
          | None \<Rightarrow> Inr connected_client)"
    by blast
  then have 1: "handle_line ''12:00:00'' connected_client ([CHR 0x09, CHR '' ''] @ ''hello'' @ [CHR '' '', CHR 0x0D]) =
     Inr (connected_client\<lparr>effects := effects connected_client
            @ [After (LogCommand (Text ''Server: hello''))]\<rparr>)"
    by (simp add: c)
  have "[CHR '' '', CHR 0x0A] = [] @ [] @ [CHR '' '', CHR 0x0A]" by simp
  with c5 [where raw = "[CHR '' '', CHR 0x0A]"] w(3)
  have "handle_line ''12:00:00'' connected_client [CHR '' '', CHR 0x0A] =
         (case spec_classify [] of
            Some Telemetry \<Rightarrow> handle_telemetry ''12:00:00'' connected_client []
          | Some PartialDirectionAck \<Rightarrow> handle_dir connected_client []
          | Some PartialSpeedAck \<Rightarrow> handle_speed connected_client []
          | Some Log \<Rightarrow>
              Inr (connected_client\<lparr>effects := effects connected_client @ [After (LogCommand (Text (''Server: '' @ [])))]\<rparr>)
          | None \<Rightarrow> Inr connected_client)"
    by (metis empty_set empty_subsetI)
  then have 2: "handle_line ''12:00:00'' connected_client [CHR '' '', CHR 0x0A] = Inr connected_client"
    by (simp add: c)
  from w e c 1 2 show ?thesis by simp
qed

text \<open>
  C5 at the line \<^verbatim>\<open>hello\<close>: the message handed to the log is \<^verbatim>\<open>Server: hello\<close>, not
  the line as it came.
\<close>

theorem C5_log_verbatim_counterexample:
  "handle_line ''12:00:00'' connected_client ''hello'' =
     Inr (connected_client\<lparr>effects := effects connected_client
            @ [After (LogCommand (Text ''Server: hello''))]\<rparr>) \<and>
   Text ''Server: hello'' \<noteq> Text ''hello''"
  by (simp add: handle_line_def strip_def strip_chars_def lstrip_chars_def py_whitespace_def
      sublist_code emit_def)


subsection \<open>Connecting, disconnecting and sending\<close>

lemma connected_client_eq:
  "connected_client =
     \<lparr> server_socket = Some 0, host = ''127.0.0.1'', port = 9000,
       is_connected = True, should_receive = True,
       telemetry_data = \<lparr> direction = ''N'', speed = ''0.0'', battery = ''0.0'',
                          temperature = ''0.0'', time = ''00:00:00'' \<rparr>,
       sock_ops = [(0, Settimeout (Some 5)), (0, Connect ''127.0.0.1'' 9000),
                   (0, Settimeout None), (0, Send (''AUTH admin admin123'' @ [newline]))],
       effects = [Direct (LogCommand (ConnectingTo ''127.0.0.1'' 9000)),
                  Direct (ShowConnection True),
                  Direct (LogCommand (Text ''Successfully connected to server'')),
                  StartThread] \<rparr>"
  by (simp add: connected_client_def connect_def connect_try_def and_then_def sock_do_def
      init_def log_command_def emit_def start_receive_thread_def)

text \<open>
  C6. The call of \<^verbatim>\<open>disconnect\<close> that follows another one only logs
  \<^verbatim>\<open>Already disconnected\<close>: it does nothing on the socket, and the object is
  disconnected after the first call and after the second. When the first call starts
  connected with a socket, the two calls together send \<^verbatim>\<open>QUIT\<close> and close that socket
  exactly once, whatever the socket raises.
\<close>

theorem C6_disconnect_twice:
  "\<not> is_connected (disconnect env1 s) \<and>
   disconnect env2 (disconnect env1 s) =
     (disconnect env1 s)\<lparr>effects := effects (disconnect env1 s)
                            @ [Direct (LogCommand (Text ''Already disconnected''))]\<rparr> \<and>
   (is_connected s \<and> server_socket s = Some k \<longrightarrow>
      sock_ops (disconnect env2 (disconnect env1 s)) =
        sock_ops s @ [(k, Send (''QUIT'' @ [newline])), (k, Close)] \<and>
      length (filter (\<lambda>(k', op). op = Close)
               (drop (length (sock_ops s)) (sock_ops (disconnect env2 (disconnect env1 s))))) = 1 \<and>
      server_socket (disconnect env2 (disconnect env1 s)) = None \<and>
      \<not> is_connected (disconnect env2 (disconnect env1 s)))"
  by (auto simp: disconnect_def log_command_def emit_def Let_def cleanup_socket_def sock_do_def
      split: option.splits)

theorem C6_disconnect_twice_witness:
  "is_connected connected_client \<and> server_socket connected_client = Some 0 \<and>
   sock_ops (disconnect (\<lambda>op. None) (disconnect (\<lambda>op. None) connected_client)) =
     sock_ops connected_client @ [(0, Send (''QUIT'' @ [newline])), (0, Close)] \<and>
   server_socket (disconnect (\<lambda>op. None) (disconnect (\<lambda>op. None) connected_client)) = None \<and>
   \<not> is_connected (disconnect (\<lambda>op. None) (disconnect (\<lambda>op. None) connected_client))"
  using C6_disconnect_twice [where s = connected_client and k = 0
      and ?env1.0 = "\<lambda>op. None" and ?env2.0 = "\<lambda>op. None"]
  by (simp add: connected_client_eq disconnect_def log_command_def emit_def cleanup_socket_def
      sock_do_def Let_def)

text \<open>
  C7. When the object is not connected and the \<^verbatim>\<open>try\<close> block of \<^verbatim>\<open>connect\<close> fails,
  because the socket cannot be created or because one of the four operations on it
  (the timeout of 5, the connection, the timeout removed, the authentication line) raises
  a timeout, a refusal or anything else, then \<^verbatim>\<open>connect\<close> returns with the object not
  connected and without a socket, the receive thread not started and the receive flag as
  it was. The new socket has been closed, as the last operation on it and only then, and
  the call has tried to connect at most once.
\<close>

theorem C7_connect_failure:
  assumes "\<not> is_connected s"
    and "case new of
           Inl e \<Rightarrow> True
         | Inr k \<Rightarrow> env (Settimeout (Some 5)) \<noteq> None \<or> env (Connect (host s) (port s)) \<noteq> None
             \<or> env (Settimeout None) \<noteq> None
             \<or> env (Send (''AUTH admin admin123'' @ [newline])) \<noteq> None"
  shows "\<not> is_connected (connect new env s) \<and>
         server_socket (connect new env s) = None \<and>
         should_receive (connect new env s) = should_receive s \<and>
         (\<exists>es. effects (connect new env s) = effects s @ es \<and> StartThread \<notin> set es) \<and>
         (\<exists>ops. sock_ops (connect new env s) = sock_ops s @ ops \<and>
            length (filter (\<lambda>(k, op). \<exists>h p. op = Connect h p) ops) \<le> 1 \<and>
            (case new of
               Inr k \<Rightarrow> ops \<noteq> [] \<and> last ops = (k, Close) \<and> (k, Close) \<notin> set (butlast ops)
             | Inl e \<Rightarrow>
                 (case server_socket s of None \<Rightarrow> ops = [] | Some k0 \<Rightarrow> ops = [(k0, Close)])))"
proof (cases new)
  case (Inl e)
  then show ?thesis
    using assms(1)
    by (simp add: connect_def connect_try_def cleanup_socket_def sock_do_def log_command_def
        emit_def split: option.splits)
next
  case (Inr k)
  with assms(2) have fail:
    "env (Settimeout (Some 5)) \<noteq> None \<or> env (Connect (host s) (port s)) \<noteq> None
       \<or> env (Settimeout None) \<noteq> None
       \<or> env (Send (''AUTH admin admin123'' @ [newline])) \<noteq> None"
    by simp
  show ?thesis
  proof (cases "env (Settimeout (Some 5))")
    case (Some e1)
    then show ?thesis
      using assms(1) Inr
      by (simp add: connect_def connect_try_def and_then_def cleanup_socket_def sock_do_def
          log_command_def emit_def)
  next
    case t5: None
    show ?thesis
    proof (cases "env (Connect (host s) (port s))")
      case (Some e2)
      then show ?thesis
        using assms(1) Inr t5
        by (simp add: connect_def connect_try_def and_then_def cleanup_socket_def sock_do_def
            log_command_def emit_def)
    next
      case c: None
      show ?thesis
      proof (cases "env (Settimeout None)")
        case (Some e3)
        then show ?thesis
          using assms(1) Inr t5 c
          by (simp add: connect_def connect_try_def and_then_def cleanup_socket_def sock_do_def
              log_command_def emit_def)
      next
        case tn: None
        with fail t5 c obtain e4 where "env (Send (''AUTH admin admin123'' @ [newline])) = Some e4"
          by auto
        then show ?thesis
          using assms(1) Inr t5 c tn
          by (simp add: connect_def connect_try_def and_then_def cleanup_socket_def sock_do_def
              log_command_def emit_def)
      qed
    qed
  qed
qed

theorem C7_connect_failure_witness:
  "\<not> is_connected (init ''00:00:00'') \<and>
   refusing (Connect (host (init ''00:00:00'')) (port (init ''00:00:00''))) \<noteq> None \<and>
   \<not> is_connected (connect (Inr 7) refusing (init ''00:00:00'')) \<and>
   server_socket (connect (Inr 7) refusing (init ''00:00:00'')) = None \<and>
   sock_ops (connect (Inr 7) refusing (init ''00:00:00'')) =
     [(7, Settimeout (Some 5)), (7, Connect ''127.0.0.1'' 9000), (7, Close)]"
proof -
  have "sock_ops (connect (Inr 7) refusing (init ''00:00:00'')) =
     [(7, Settimeout (Some 5)), (7, Connect ''127.0.0.1'' 9000), (7, Close)]"
    by (simp add: connect_def connect_try_def and_then_def cleanup_socket_def sock_do_def
        log_command_def emit_def init_def refusing_def)
  then show ?thesis
    using C7_connect_failure [where s = "init ''00:00:00''" and new = "Inr 7" and env = refusing]
    by (simp add: init_def refusing_def)
qed

text \<open>
  C8. While the object is not connected, \<^verbatim>\<open>send_command\<close> returns \<^verbatim>\<open>False\<close> for every
  command and every behaviour of the socket, and all it does is log
  \<^verbatim>\<open>ERROR: Not connected to server\<close>: the socket, the record of operations on it and the
  connection flag are what they were.
\<close>

theorem C8_send_when_not_connected:
  "\<not> is_connected s \<Longrightarrow>
     send_command env message s =
       (False, s\<lparr>effects := effects s
                    @ [Direct (LogCommand (Text ''ERROR: Not connected to server''))]\<rparr>)"
  by (simp add: send_command_def log_command_def emit_def)

theorem C8_send_when_not_connected_witness:
  "\<not> is_connected (init ''00:00:00'') \<and>
   fst (send_command (\<lambda>op. None) ''SPEED UP'' (init ''00:00:00'')) = False \<and>
   sock_ops (snd (send_command (\<lambda>op. None) ''SPEED UP'' (init ''00:00:00''))) = [] \<and>
   server_socket (snd (send_command (\<lambda>op. None) ''SPEED UP'' (init ''00:00:00''))) = None \<and>
   \<not> is_connected (snd (send_command (\<lambda>op. None) ''SPEED UP'' (init ''00:00:00'')))"
  using C8_send_when_not_connected [where s = "init ''00:00:00''" and env = "\<lambda>op. None"
      and message = "''SPEED UP''"]
  by (simp add: init_def)

subsection \<open>Splitting and stripping\<close>

lemma split_chr_not_Nil: "split_chr sep s \<noteq> []"
  by (induction s) (auto split: list.splits)

lemma split_chr_no_sep: "sep \<notin> set s \<Longrightarrow> split_chr sep s = [s]"
  by (induction s) auto

lemma split_chr_append:
  "sep \<notin> set a \<Longrightarrow> split_chr sep (a @ sep # b) = a # split_chr sep b"
  by (induction a) auto

lemma in_set_dropWhile: "x \<in> set xs \<Longrightarrow> \<not> P x \<Longrightarrow> x \<in> set (dropWhile P xs)"
  by (induction xs) auto


lemma strip_chars_keeps:
  "c \<notin> set cs \<Longrightarrow> c \<in> set s \<Longrightarrow> c \<in> set (strip_chars cs s)"
  by (simp add: strip_chars_def lstrip_chars_def in_set_dropWhile)


lemma takeWhile_no_sep: "sep \<notin> set a \<Longrightarrow> takeWhile (\<lambda>c. c \<noteq> sep) a = a"
  by (induction a) auto

lemma split_chr_second:
  assumes "sep \<in> set s"
  shows "1 < length (split_chr sep s)"
    and "split_chr sep s ! 1 = takeWhile (\<lambda>c. c \<noteq> sep) (tl (dropWhile (\<lambda>c. c \<noteq> sep) s))"
proof -
  from assms obtain a b where s: "s = a @ sep # b" and a: "sep \<notin> set a"
    by (auto dest!: split_list_first)
  have sp: "split_chr sep s = a # split_chr sep b"
    by (simp add: s split_chr_append [OF a])
  have d: "dropWhile (\<lambda>c. c \<noteq> sep) s = sep # b"
    using a by (auto simp: s dropWhile_append3)
  show "1 < length (split_chr sep s)"
    using split_chr_not_Nil [of sep b] by (cases "split_chr sep b") (simp_all add: sp)
  have "hd (split_chr sep b) = takeWhile (\<lambda>c. c \<noteq> sep) b"
  proof (cases "sep \<in> set b")
    case False
    then show ?thesis by (simp add: split_chr_no_sep takeWhile_no_sep)
  next
    case True
    then obtain a' b' where b: "b = a' @ sep # b'" and a': "sep \<notin> set a'"
      by (auto dest!: split_list_first)
    then show ?thesis
      by (simp add: split_chr_append takeWhile_tail takeWhile_no_sep)
  qed
  then show "split_chr sep s ! 1 = takeWhile (\<lambda>c. c \<noteq> sep) (tl (dropWhile (\<lambda>c. c \<noteq> sep) s))"
    using split_chr_not_Nil [of sep b] by (cases "split_chr sep b") (simp_all add: sp d)
qed

lemma ack_value_eq:
  assumes "CHR ''='' \<in> set line"
  shows "ack_value line =
     Inr (takeWhile (\<lambda>c. c \<noteq> CHR ''='')
            (tl (dropWhile (\<lambda>c. c \<noteq> CHR ''='') (strip_chars ''OK '' line))))"
proof -
  have "CHR ''='' \<in> set (strip_chars ''OK '' line)"
    using assms by (rule strip_chars_keeps [rotated]) simp
  from split_chr_second [OF this] show ?thesis
    by (simp add: ack_value_def index1_def)
qed

lemma strip_chars_sep:
  assumes sep: "sep \<notin> set cs"
  shows "strip_chars cs (a @ sep # m) =
     dropWhile (\<lambda>c. c \<in> set cs) a @ sep # rev (dropWhile (\<lambda>c. c \<in> set cs) (rev m))"
proof -
  let ?P = "\<lambda>c. c \<in> set cs"
  have l: "dropWhile ?P (a @ sep # m) = dropWhile ?P a @ sep # m"
    using sep by (simp add: dropWhile_append3)
  have "dropWhile ?P (rev m @ sep # rev (dropWhile ?P a))
          = dropWhile ?P (rev m) @ sep # rev (dropWhile ?P a)"
    using sep by (simp add: dropWhile_append3)
  then show ?thesis
    by (simp add: strip_chars_def lstrip_chars_def l)
qed

lemma ack_value_one_eq:
  assumes a: "CHR ''='' \<notin> set a" and b: "CHR ''='' \<notin> set b"
  shows "ack_value (a @ CHR ''='' # b) = Inr (rev (dropWhile (\<lambda>c. c \<in> set ''OK '') (rev b)))"
proof -
  let ?a = "dropWhile (\<lambda>c. c \<in> set ''OK '') a"
  let ?b = "rev (dropWhile (\<lambda>c. c \<in> set ''OK '') (rev b))"
  have "CHR ''='' \<notin> set ''OK ''" by simp
  from strip_chars_sep [OF this, of a b]
  have u: "strip_chars ''OK '' (a @ CHR ''='' # b) = ?a @ CHR ''='' # ?b" .
  have a': "CHR ''='' \<notin> set ?a"
    using a by (auto dest: set_dropWhileD)
  have b': "CHR ''='' \<notin> set ?b"
    using b by (auto dest: set_dropWhileD)
  have "split_chr CHR ''='' (?a @ CHR ''='' # ?b) = [?a, ?b]"
    using split_chr_append [OF a', of ?b] split_chr_no_sep [OF b'] by simp
  then show ?thesis
    by (simp only: ack_value_def u index1_def) simp
qed

lemma ack_value_two_eq:
  assumes a: "CHR ''='' \<notin> set a" and b: "CHR ''='' \<notin> set b"
  shows "ack_value (a @ CHR ''='' # b @ CHR ''='' # c) = Inr b"
proof -
  let ?P = "\<lambda>c. c \<in> set ''OK ''"
  let ?a = "dropWhile ?P a"
  let ?c = "rev (dropWhile ?P (rev c))"
  have ne: "CHR ''='' \<notin> set ''OK ''" by simp
  have "rev (dropWhile ?P (rev (b @ CHR ''='' # c))) = b @ CHR ''='' # ?c"
    by (simp add: dropWhile_append3)
  with strip_chars_sep [OF ne, of a "b @ CHR ''='' # c"]
  have u: "strip_chars ''OK '' (a @ CHR ''='' # b @ CHR ''='' # c) = ?a @ CHR ''='' # b @ CHR ''='' # ?c"
    by simp
  have a': "CHR ''='' \<notin> set ?a"
    using a by (auto dest: set_dropWhileD)
  have "split_chr CHR ''='' (?a @ CHR ''='' # b @ CHR ''='' # ?c) = ?a # b # split_chr CHR ''='' ?c"
    using split_chr_append [OF a', of "b @ CHR ''='' # ?c"] split_chr_append [OF b, of ?c] by simp
  then show ?thesis
    by (simp only: ack_value_def u index1_def) simp
qed

lemma spec_ack_value_one_eq:
  "CHR ''='' \<notin> set b \<Longrightarrow> spec_ack_value (a @ CHR ''='' # b) = b"
proof -
  assume "CHR ''='' \<notin> set b"
  then have "takeWhile (\<lambda>c. c \<noteq> CHR ''='') (rev b @ CHR ''='' # rev a) = rev b"
    by (auto simp: takeWhile_tail)
  then show ?thesis
    by (simp add: spec_ack_value_def)
qed

lemma ack_value_Inr:
  "CHR ''='' \<in> set line \<Longrightarrow> \<exists>v. ack_value line = Inr v"
  using ack_value_eq by blast

subsection \<open>The line buffer\<close>

lemma drain_no_newline: "newline \<notin> set buffer \<Longrightarrow> drain buffer = ([], buffer)"
  by (simp add: drain.simps)

lemma drain_line:
  assumes "newline \<notin> set l"
  shows "drain (l @ newline # rest) = (l # fst (drain rest), snd (drain rest))"
proof -
  have t: "takeWhile (\<lambda>c. c \<noteq> newline) (l @ newline # rest) = l"
    using assms by (auto simp: takeWhile_tail)
  have d: "dropWhile (\<lambda>c. c \<noteq> newline) (l @ newline # rest) = newline # rest"
    using assms by (auto simp: dropWhile_append3)
  show ?thesis
    by (subst drain.simps) (simp add: t d case_prod_beta)
qed

lemma split_at_newline:
  assumes "newline \<in> set buffer"
  shows "buffer = takeWhile (\<lambda>c. c \<noteq> newline) buffer @ newline
                    # tl (dropWhile (\<lambda>c. c \<noteq> newline) buffer)"
    and "newline \<notin> set (takeWhile (\<lambda>c. c \<noteq> newline) buffer)"
proof -
  from assms have "dropWhile (\<lambda>c. c \<noteq> newline) buffer \<noteq> []" by simp
  moreover have "hd (dropWhile (\<lambda>c. c \<noteq> newline) buffer) = newline"
    using assms hd_dropWhile [of "\<lambda>c. c \<noteq> newline" buffer] by simp
  ultimately have "dropWhile (\<lambda>c. c \<noteq> newline) buffer
                     = newline # tl (dropWhile (\<lambda>c. c \<noteq> newline) buffer)"
    by (cases "dropWhile (\<lambda>c. c \<noteq> newline) buffer") simp_all
  then show "buffer = takeWhile (\<lambda>c. c \<noteq> newline) buffer @ newline
                    # tl (dropWhile (\<lambda>c. c \<noteq> newline) buffer)"
    using takeWhile_dropWhile_id [of "\<lambda>c. c \<noteq> newline" buffer] by simp
  show "newline \<notin> set (takeWhile (\<lambda>c. c \<noteq> newline) buffer)"
    by (auto dest: set_takeWhileD)
qed

lemma drain_append:
  "drain (a @ b) =
     (fst (drain a) @ fst (drain (snd (drain a) @ b)), snd (drain (snd (drain a) @ b)))"
proof (induction a rule: drain.induct)
  case (1 buffer)
  show ?case
  proof (cases "newline \<in> set buffer")
    case False
    then show ?thesis by (simp add: drain_no_newline)
  next
    case True
    define l where "l = takeWhile (\<lambda>c. c \<noteq> newline) buffer"
    define rest where "rest = tl (dropWhile (\<lambda>c. c \<noteq> newline) buffer)"
    have buf: "buffer = l @ newline # rest" and l: "newline \<notin> set l"
      using split_at_newline [OF True] by (simp_all add: l_def rest_def)
    have ih: "drain (rest @ b) =
        (fst (drain rest) @ fst (drain (snd (drain rest) @ b)), snd (drain (snd (drain rest) @ b)))"
      using "1.IH" [OF True] by (simp add: rest_def)
    have "drain (buffer @ b) = drain (l @ newline # (rest @ b))"
      by (simp add: buf)
    also have "\<dots> = (l # fst (drain (rest @ b)), snd (drain (rest @ b)))"
      by (rule drain_line [OF l])
    finally show ?thesis
      using ih by (simp add: buf drain_line [OF l])
  qed
qed

lemma drain_rest: "newline \<notin> set (snd (drain buffer))"
proof (induction buffer rule: drain.induct)
  case (1 buffer)
  show ?case
  proof (cases "newline \<in> set buffer")
    case False
    then show ?thesis by (simp add: drain_no_newline)
  next
    case True
    then show ?thesis
      using "1.IH" [OF True] by (subst drain.simps) (simp add: case_prod_beta)
  qed
qed

lemma drain_lines:
  "\<forall>l\<in>set ls. newline \<notin> set l \<Longrightarrow> newline \<notin> set rest \<Longrightarrow>
     drain (concat (map (\<lambda>l. l @ [newline]) ls) @ rest) = (ls, rest)"
proof (induction ls)
  case Nil
  then show ?case by (simp add: drain_no_newline)
next
  case (Cons l ls)
  then have "newline \<notin> set l" by simp
  from drain_line [OF this, of "concat (map (\<lambda>l. l @ [newline]) ls) @ rest"] Cons
  show ?case by simp
qed

lemma drain_sound:
  "buffer = concat (map (\<lambda>l. l @ [newline]) (fst (drain buffer))) @ snd (drain buffer) \<and>
   (\<forall>l\<in>set (fst (drain buffer)). newline \<notin> set l)"
proof (induction buffer rule: drain.induct)
  case (1 buffer)
  show ?case
  proof (cases "newline \<in> set buffer")
    case False
    then show ?thesis by (simp add: drain_no_newline)
  next
    case True
    define l where "l = takeWhile (\<lambda>c. c \<noteq> newline) buffer"
    define b where "b = tl (dropWhile (\<lambda>c. c \<noteq> newline) buffer)"
    have buf: "buffer = l @ newline # b" and l: "newline \<notin> set l"
      using split_at_newline [OF True] by (simp_all add: l_def b_def)
    have d: "drain buffer = (l # fst (drain b), snd (drain b))"
      using drain_line [OF l, of b] buf by simp
    from "1.IH" [OF True]
    have "b = concat (map (\<lambda>l. l @ [newline]) (fst (drain b))) @ snd (drain b) \<and>
       (\<forall>l\<in>set (fst (drain b)). newline \<notin> set l)"
      by (simp add: b_def)
    then show ?thesis
      using l by (simp add: d) (metis buf)
  qed
qed

subsection \<open>The loops and the lines they handle\<close>

lemma process_buffer_no_newline:
  "newline \<notin> set buffer \<Longrightarrow> process_buffer clock n buffer s = (None, n, buffer, s)"
  by (simp add: process_buffer.simps)

lemma process_buffer_line:
  assumes "newline \<notin> set l"
  shows "process_buffer clock n (l @ newline # rest) s =
     (case handle_line (clock n) s l of
        Inl e \<Rightarrow> (Some e, Suc n, rest, s)
      | Inr s' \<Rightarrow> process_buffer clock (Suc n) rest s')"
proof -
  have t: "takeWhile (\<lambda>c. c \<noteq> newline) (l @ newline # rest) = l"
    using assms by (auto simp: takeWhile_tail)
  have d: "dropWhile (\<lambda>c. c \<noteq> newline) (l @ newline # rest) = newline # rest"
    using assms by (auto simp: dropWhile_append3)
  show ?thesis
    by (subst process_buffer.simps) (simp add: t d split: sum.splits)
qed

lemma receive_loop_line_raises:
  assumes flags: "should_receive s" "is_connected s" "server_socket s = Some k"
    and data: "data \<noteq> []" "buffer @ data = raw @ newline # rest" "newline \<notin> set raw"
    and raises: "handle_line (clock n) s raw = Inl e"
  shows "receive_loop clock (Data data # reads) (n, buffer, s) =
     (Suc n, rest,
      s\<lparr>effects := effects s @ [After (LogCommand (TextExc ''ERROR receiving data: '' e)),
                                 After DisconnectCall]\<rparr>)"
  using flags data(1) raises
  by (simp add: receive_once_def data(2) process_buffer_line [OF data(3)] on_receive_error_def
      emit_def)

lemma handle_line_flags:
  assumes "handle_line now s raw = Inr s'"
  shows "should_receive s' = should_receive s \<and> is_connected s' = is_connected s \<and>
         server_socket s' = server_socket s \<and> sock_ops s' = sock_ops s"
  using assms
  by (auto simp: handle_line_def Let_def handle_telemetry_def handle_dir_def handle_speed_def
      emit_def log_command_def split: if_splits sum.splits)

lemma handle_lines_flags:
  "handle_lines clock n ls s = (r, n', s') \<Longrightarrow>
     should_receive s' = should_receive s \<and> is_connected s' = is_connected s \<and>
     server_socket s' = server_socket s \<and> sock_ops s' = sock_ops s"
proof (induction ls arbitrary: n s)
  case Nil
  then show ?case by simp
next
  case (Cons l ls)
  show ?case
  proof (cases "handle_line (clock n) s l")
    case (Inl e)
    with Cons.prems show ?thesis by simp
  next
    case (Inr s1)
    with Cons.prems have "handle_lines clock (Suc n) ls s1 = (r, n', s')" by simp
    from Cons.IH [OF this] handle_line_flags [OF Inr] show ?thesis by simp
  qed
qed

lemma handle_lines_append:
  "handle_lines clock n (ls @ ls') s =
     (case handle_lines clock n ls s of
        (None, n', s') \<Rightarrow> handle_lines clock n' ls' s'
      | (Some e, n', s') \<Rightarrow> (Some e, n', s'))"
  by (induction ls arbitrary: n s) (simp_all split: sum.splits)

lemma process_buffer_lines:
  assumes "\<forall>l\<in>set ls. newline \<notin> set l" and "newline \<notin> set rest"
  shows "\<exists>b. process_buffer clock n (concat (map (\<lambda>l. l @ [newline]) ls) @ rest) s
               = (fst (handle_lines clock n ls s), fst (snd (handle_lines clock n ls s)), b,
                  snd (snd (handle_lines clock n ls s))) \<and>
             (fst (handle_lines clock n ls s) = None \<longrightarrow> b = rest)"
  using assms
proof (induction ls arbitrary: n s)
  case Nil
  then show ?case by (simp add: process_buffer_no_newline)
next
  case (Cons l ls)
  then have l: "newline \<notin> set l" by simp
  note pb = process_buffer_line [OF l, of clock n "concat (map (\<lambda>l. l @ [newline]) ls) @ rest" s]
  show ?case
  proof (cases "handle_line (clock n) s l")
    case (Inl e)
    then show ?thesis
      using pb by simp
  next
    case (Inr s1)
    from Cons.IH [of "Suc n" s1] Cons.prems
    obtain b where "process_buffer clock (Suc n) (concat (map (\<lambda>l. l @ [newline]) ls) @ rest) s1
               = (fst (handle_lines clock (Suc n) ls s1), fst (snd (handle_lines clock (Suc n) ls s1)),
                  b, snd (snd (handle_lines clock (Suc n) ls s1)))"
      and "fst (handle_lines clock (Suc n) ls s1) = None \<longrightarrow> b = rest"
      by auto
    then show ?thesis
      using pb Inr by simp
  qed
qed

lemma process_buffer_drain:
  "\<exists>b. process_buffer clock n buffer s
          = (fst (handle_lines clock n (fst (drain buffer)) s),
             fst (snd (handle_lines clock n (fst (drain buffer)) s)), b,
             snd (snd (handle_lines clock n (fst (drain buffer)) s))) \<and>
        (fst (handle_lines clock n (fst (drain buffer)) s) = None \<longrightarrow> b = snd (drain buffer))"
proof -
  have "buffer = concat (map (\<lambda>l. l @ [newline]) (fst (drain buffer))) @ snd (drain buffer)"
    and "\<forall>l\<in>set (fst (drain buffer)). newline \<notin> set l"
    using drain_sound [of buffer] by simp_all
  with process_buffer_lines [of "fst (drain buffer)" "snd (drain buffer)" clock n s]
    drain_rest [of buffer]
  show ?thesis by metis
qed

lemma receive_loop_lines:
  assumes "should_receive s" "is_connected s" "server_socket s = Some k"
    and "[] \<notin> set chunks" and "newline \<notin> set buffer"
  shows "\<exists>b. receive_loop clock (map Data chunks) (n, buffer, s)
          = (fst (snd (handle_lines clock n (fst (drain (buffer @ concat chunks))) s)), b,
             (case fst (handle_lines clock n (fst (drain (buffer @ concat chunks))) s) of
                None \<Rightarrow> snd (snd (handle_lines clock n (fst (drain (buffer @ concat chunks))) s))
              | Some e \<Rightarrow> on_receive_error e
                  (snd (snd (handle_lines clock n (fst (drain (buffer @ concat chunks))) s))))) \<and>
        (fst (handle_lines clock n (fst (drain (buffer @ concat chunks))) s) = None
           \<longrightarrow> b = snd (drain (buffer @ concat chunks)))"
  using assms
proof (induction chunks arbitrary: n buffer s)
  case Nil
  then show ?case by (simp add: drain_no_newline)
next
  case (Cons c cs)
  let ?ls1 = "fst (drain (buffer @ c))" and ?r1 = "snd (drain (buffer @ c))"
  let ?ls2 = "fst (drain (?r1 @ concat cs))"
  have c: "c \<noteq> []" and cs: "[] \<notin> set cs" using Cons.prems(4) by auto
  have dr: "drain (buffer @ concat (c # cs)) = (?ls1 @ ?ls2, snd (drain (?r1 @ concat cs)))"
    using drain_append [of "buffer @ c" "concat cs"] by simp
  obtain r n1 s1 where hl: "handle_lines clock n ?ls1 s = (r, n1, s1)"
    by (cases "handle_lines clock n ?ls1 s") auto
  from handle_lines_flags [OF hl] Cons.prems
  have f1: "should_receive s1" "is_connected s1" "server_socket s1 = Some k" by simp_all
  from process_buffer_drain [of clock n "buffer @ c" s] hl
  obtain b1 where pb: "process_buffer clock n (buffer @ c) s = (r, n1, b1, s1)"
    and b1: "r = None \<longrightarrow> b1 = ?r1"
    by auto
  show ?case
  proof (cases r)
    case None
    with b1 have "b1 = ?r1" by simp
    with pb None have step: "receive_loop clock (map Data (c # cs)) (n, buffer, s)
                  = receive_loop clock (map Data cs) (n1, ?r1, s1)"
      using Cons.prems(1-3) c by (simp add: receive_once_def)
    have all: "handle_lines clock n (?ls1 @ ?ls2) s = handle_lines clock n1 ?ls2 s1"
      using hl None by (simp add: handle_lines_append)
    from Cons.IH [OF f1 cs drain_rest, of n1 "buffer @ c"]
    show ?thesis
      by (simp only: step dr fst_conv snd_conv all)
  next
    case (Some e)
    with pb have step: "receive_loop clock (map Data (c # cs)) (n, buffer, s)
                  = (n1, b1, on_receive_error e s1)"
      using Cons.prems(1-3) c by (simp add: receive_once_def)
    have all: "handle_lines clock n (?ls1 @ ?ls2) s = (Some e, n1, s1)"
      using hl Some by (simp add: handle_lines_append)
    show ?thesis
      by (simp only: step dr fst_conv snd_conv all) simp
  qed
qed

subsection \<open>Chunks\<close>

lemma decode_ascii:
  "\<forall>b\<in>set bs. b < 0x80 \<Longrightarrow> decode bs = Some (Inr (map (\<lambda>b. char_of (unat b)) bs))"
  by (induction bs) (simp_all add: then_char_def)

lemma those_map_Some: "those (map Some xs) = Some xs"
  by (induction xs) simp_all

lemma reads_of_decoded:
  assumes "map decode chunks = map (\<lambda>t. Some (Inr t)) texts"
  shows "those (map read_of (map Bytes chunks)) = Some (map Data texts)"
proof -
  have "map read_of (map Bytes chunks) = map Some (map Data texts)"
    using assms
  proof (induction chunks arbitrary: texts)
    case Nil
    then show ?case by simp
  next
    case (Cons c cs)
    then obtain t ts where texts: "texts = t # ts" by (cases texts) auto
    with Cons.prems have "decode c = Some (Inr t)" "map decode cs = map (\<lambda>t. Some (Inr t)) ts"
      by simp_all
    with Cons.IH [of ts] show ?case
      by (simp add: texts read_of_def)
  qed
  then show ?thesis by (simp only: those_map_Some)
qed

text \<open>
  C4, as the code has it. Take a running loop on a connected object, a buffer without a
  newline (it is empty at first, and the loop leaves none behind) and byte chunks each of
  which decodes on its own to a text that is not empty; every chunk of bytes below 128
  does. When the buffer and the decoded texts together are a sequence of lines, each
  ended by a newline, followed by a rest without newline, then however the bytes are cut
  into such chunks the loop handles exactly these lines, in this order, until one raises;
  when none raises, the rest is the buffer kept for the next read, and when one raises
  the loop ends with the error log and the disconnect handed over.
\<close>

theorem C4_chunking_invariance:
  assumes flags: "should_receive s" "is_connected s" "server_socket s = Some k"
    and buf: "newline \<notin> set buffer"
    and dec: "map decode chunks = map (\<lambda>t. Some (Inr t)) texts" and ne: "[] \<notin> set texts"
    and lines: "buffer @ concat texts = concat (map (\<lambda>l. l @ [newline]) ls) @ rest"
      "\<forall>l\<in>set ls. newline \<notin> set l" "newline \<notin> set rest"
  shows "(\<exists>b. receive_loop_bytes clock (map Bytes chunks) (n, buffer, s)
            = Some (fst (snd (handle_lines clock n ls s)), b,
                    (case fst (handle_lines clock n ls s) of
                       None \<Rightarrow> snd (snd (handle_lines clock n ls s))
                     | Some e \<Rightarrow> on_receive_error e (snd (snd (handle_lines clock n ls s))))) \<and>
            (fst (handle_lines clock n ls s) = None \<longrightarrow> b = rest)) \<and>
         ((\<forall>b\<in>set bs. b < 0x80) \<longrightarrow> decode bs = Some (Inr (map (\<lambda>b. char_of (unat b)) bs)))"
proof -
  have d: "drain (buffer @ concat texts) = (ls, rest)"
    using drain_lines [OF lines(2,3)] lines(1) by simp
  from receive_loop_lines [OF flags ne buf, of clock n]
  have "\<exists>b. receive_loop clock (map Data texts) (n, buffer, s)
            = (fst (snd (handle_lines clock n ls s)), b,
                    (case fst (handle_lines clock n ls s) of
                       None \<Rightarrow> snd (snd (handle_lines clock n ls s))
                     | Some e \<Rightarrow> on_receive_error e (snd (snd (handle_lines clock n ls s))))) \<and>
            (fst (handle_lines clock n ls s) = None \<longrightarrow> b = rest)"
    by (simp only: d fst_conv snd_conv)
  moreover have "receive_loop_bytes clock (map Bytes chunks) (n, buffer, s)
      = Some (receive_loop clock (map Data texts) (n, buffer, s))"
    by (simp only: receive_loop_bytes_def reads_of_decoded [OF dec] option.case)
  ultimately show ?thesis
    by (simp add: decode_ascii)
qed

lemma decode_examples:
  "decode [0x4F] = Some (Inr ''O'')"
  "decode [0x4B, 0x0A, 0x68] = Some (Inr (''K'' @ [newline] @ ''h''))"
  "decode [0x65, 0x6C] = Some (Inr ''el'')"
  "decode [0x4F, 0x4B, 0x0A, 0x68, 0x65, 0x6C] = Some (Inr (''OK'' @ [newline] @ ''hel''))"
  "decode [0xC3, 0xA9, 0x0A] = Some (Inr [CHR 0xE9, newline])"
  "decode [0xC3] = Some (Inl UnicodeDecodeError)"
  by code_simp+

lemma handle_ok: "handle_line now s ''OK'' = Inr (s\<lparr>effects := effects s @ [After (LogCommand (Text ''Server: OK''))]\<rparr>)"
  by (simp add: handle_line_def strip_def strip_chars_def lstrip_chars_def py_whitespace_def
      sublist_code emit_def)

theorem C4_chunking_invariance_witness:
  "should_receive connected_client \<and> is_connected connected_client \<and>
   server_socket connected_client = Some 0 \<and>
   map decode [[0x4F], [0x4B, 0x0A, 0x68], [0x65, 0x6C]]
     = map (\<lambda>t. Some (Inr t)) [''O'', ''K'' @ [newline] @ ''h'', ''el''] \<and>
   map decode [[0x4F, 0x4B, 0x0A, 0x68, 0x65, 0x6C]]
     = map (\<lambda>t. Some (Inr t)) [''OK'' @ [newline] @ ''hel''] \<and>
   receive_loop_bytes noon (map Bytes [[0x4F], [0x4B, 0x0A, 0x68], [0x65, 0x6C]])
       (0, [], connected_client) =
     Some (1, ''hel'',
           connected_client\<lparr>effects := effects connected_client
              @ [After (LogCommand (Text ''Server: OK''))]\<rparr>) \<and>
   receive_loop_bytes noon (map Bytes [[0x4F, 0x4B, 0x0A, 0x68, 0x65, 0x6C]])
       (0, [], connected_client) =
     Some (1, ''hel'',
           connected_client\<lparr>effects := effects connected_client
              @ [After (LogCommand (Text ''Server: OK''))]\<rparr>)"
proof -
  have flags: "should_receive connected_client" "is_connected connected_client"
      "server_socket connected_client = Some 0"
    by (simp_all add: connected_client_eq)
  have buf: "newline \<notin> set ([] :: string)" by simp
  have d1: "map decode [[0x4F], [0x4B, 0x0A, 0x68], [0x65, 0x6C]]
     = map (\<lambda>t. Some (Inr t)) [''O'', ''K'' @ [newline] @ ''h'', ''el'']"
    by (simp only: list.map decode_examples)
  have d2: "map decode [[0x4F, 0x4B, 0x0A, 0x68, 0x65, 0x6C]]
     = map (\<lambda>t. Some (Inr t)) [''OK'' @ [newline] @ ''hel'']"
    by (simp only: list.map decode_examples)
  have n1: "[] \<notin> set [''O'', ''K'' @ [newline] @ ''h'', ''el'']" by simp
  have n2: "[] \<notin> set [''OK'' @ [newline] @ ''hel'']" by simp
  have l1: "[] @ concat [''O'', ''K'' @ [newline] @ ''h'', ''el'']
      = concat (map (\<lambda>l. l @ [newline]) [''OK'']) @ ''hel''" by simp
  have l2: "[] @ concat [''OK'' @ [newline] @ ''hel'']
      = concat (map (\<lambda>l. l @ [newline]) [''OK'']) @ ''hel''" by simp
  have l: "\<forall>l\<in>set [''OK'']. newline \<notin> set l" "newline \<notin> set ''hel''"
    by (simp_all add: newline_def)
  have h: "handle_lines noon 0 [''OK''] connected_client =
      (None, 1, connected_client\<lparr>effects := effects connected_client
              @ [After (LogCommand (Text ''Server: OK''))]\<rparr>)"
    by (simp add: handle_ok)
  from C4_chunking_invariance [OF flags buf d1 n1 l1 l, where clock = noon and n = 0] h
  have 1: "receive_loop_bytes noon (map Bytes [[0x4F], [0x4B, 0x0A, 0x68], [0x65, 0x6C]])
       (0, [], connected_client) =
     Some (1, ''hel'',
           connected_client\<lparr>effects := effects connected_client
              @ [After (LogCommand (Text ''Server: OK''))]\<rparr>)"
    by auto
  from C4_chunking_invariance [OF flags buf d2 n2 l2 l, where clock = noon and n = 0] h
  have 2: "receive_loop_bytes noon (map Bytes [[0x4F, 0x4B, 0x0A, 0x68, 0x65, 0x6C]])
       (0, [], connected_client) =
     Some (1, ''hel'',
           connected_client\<lparr>effects := effects connected_client
              @ [After (LogCommand (Text ''Server: OK''))]\<rparr>)"
    by auto
  from flags d1 d2 1 2 show ?thesis by (intro conjI)
qed

lemma handle_e_acute:
  "handle_line now s [CHR 0xE9] =
     Inr (s\<lparr>effects := effects s @ [After (LogCommand (Text (''Server: '' @ [CHR 0xE9])))]\<rparr>)"
  by (simp add: handle_line_def strip_def strip_chars_def lstrip_chars_def py_whitespace_def
      sublist_code emit_def)

text \<open>
  C4 at the bytes C3 A9 0A, the letter e with an acute accent and a newline: read at once
  they are one line, which is logged; read one byte at a time, the first read does not
  decode, and the loop ends without any line.
\<close>

theorem C4_chunking_counterexample:
  "receive_loop_bytes noon [Bytes [0xC3, 0xA9, 0x0A]] (0, [], connected_client) =
     Some (1, [],
           connected_client\<lparr>effects := effects connected_client
              @ [After (LogCommand (Text (''Server: '' @ [CHR 0xE9])))]\<rparr>) \<and>
   receive_loop_bytes noon [Bytes [0xC3], Bytes [0xA9], Bytes [0x0A]] (0, [], connected_client) =
     Some (0, [],
           connected_client\<lparr>effects := effects connected_client
              @ [After (LogCommand (TextExc ''ERROR receiving data: '' UnicodeDecodeError)),
                 After DisconnectCall]\<rparr>)"
proof -
  have flags: "should_receive connected_client" "is_connected connected_client"
      "server_socket connected_client = Some 0"
    by (simp_all add: connected_client_eq)
  have pb: "process_buffer noon 0 [CHR 0xE9, newline] connected_client =
      (None, 1, [], connected_client\<lparr>effects := effects connected_client
              @ [After (LogCommand (Text (''Server: '' @ [CHR 0xE9])))]\<rparr>)"
    using process_buffer_line [of "[CHR 0xE9]" noon 0 "[]" connected_client]
    by (simp add: newline_def handle_e_acute process_buffer_no_newline)
  have a: "decode [0xA9] = Some (Inl UnicodeDecodeError)" "decode [0x0A] = Some (Inr [newline])"
    by code_simp+
  have 1: "receive_loop_bytes noon [Bytes [0xC3, 0xA9, 0x0A]] (0, [], connected_client) =
     Some (1, [],
           connected_client\<lparr>effects := effects connected_client
              @ [After (LogCommand (Text (''Server: '' @ [CHR 0xE9])))]\<rparr>)"
    using flags
    by (simp add: receive_loop_bytes_def read_of_def decode_examples del: decode.simps)
       (simp add: receive_once_def pb)
  have 2: "receive_loop_bytes noon [Bytes [0xC3], Bytes [0xA9], Bytes [0x0A]] (0, [], connected_client) =
     Some (0, [],
           connected_client\<lparr>effects := effects connected_client
              @ [After (LogCommand (TextExc ''ERROR receiving data: '' UnicodeDecodeError)),
                 After DisconnectCall]\<rparr>)"
    using flags
    by (simp add: receive_loop_bytes_def read_of_def decode_examples a del: decode.simps)
       (simp add: receive_once_def on_receive_error_def emit_def)
  from 1 2 show ?thesis ..
qed

subsection \<open>Lines that raise\<close>





lemma py_dict_bad:
  "\<exists>x\<in>set xs. length x \<noteq> 2 \<Longrightarrow>
     \<exists>j<length xs. length (xs ! j) \<noteq> 2 \<and> (\<forall>j'<j. length (xs ! j') = 2) \<and>
        py_dict i m xs = Inl (ValueError (i + j) (length (xs ! j)))"
proof (induction xs arbitrary: i m)
  case Nil
  then show ?case by simp
next
  case (Cons x xs)
  show ?case
  proof (cases "length x = 2")
    case False
    then have "py_dict i m (x # xs) = Inl (ValueError i (length x))"
      by (cases x; cases "tl x"; cases "tl (tl x)") auto
    with False show ?thesis
      by (intro exI [of _ 0]) simp
  next
    case True
    then obtain k v where x: "x = [k, v]"
      by (cases x; cases "tl x") auto
    from Cons.prems True have "\<exists>y\<in>set xs. length y \<noteq> 2" by auto
    from Cons.IH [OF this, of "Suc i" "m(k \<mapsto> v)"]
    obtain j where j: "j < length xs" "length (xs ! j) \<noteq> 2" "\<forall>j'<j. length (xs ! j') = 2"
      "py_dict (Suc i) (m(k \<mapsto> v)) xs = Inl (ValueError (Suc i + j) (length (xs ! j)))"
      by blast
    have "\<forall>j'<Suc j. length ((x # xs) ! j') = 2"
      using j(3) True by (auto simp: less_Suc_eq_0_disj)
    with j show ?thesis
      by (intro exI [of _ "Suc j"]) (simp add: x)
  qed
qed

lemma strip_garbage: "strip ''TLM speed=10;garbage;dir=S'' = ''TLM speed=10;garbage;dir=S''"
  by (simp add: strip_def strip_chars_def lstrip_chars_def py_whitespace_def)

lemma pairs_garbage:
  "telemetry_pairs ''TLM speed=10;garbage;dir=S'' = [[''speed'', ''10''], [''garbage''], [''dir'', ''S'']]"
  by (simp add: telemetry_pairs_def)

lemma handle_garbage:
  "handle_line now s ''TLM speed=10;garbage;dir=S'' = Inl (ValueError 1 1)"
  by (simp add: handle_line_def handle_telemetry_def strip_garbage pairs_garbage sublist_code)

text \<open>
  C1 at the line \<^verbatim>\<open>TLM speed=10;garbage;dir=S\<close>: handling it raises, so neither the
  speed nor the direction is applied, and the loop that reads it ends with the error log
  and the disconnect handed over instead of a warning.
\<close>

theorem C1_malformed_pair_counterexample:
  "handle_line ''12:00:00'' connected_client ''TLM speed=10;garbage;dir=S'' = Inl (ValueError 1 1) \<and>
   receive_loop noon [Data (''TLM speed=10;garbage;dir=S'' @ [newline])] (0, [], connected_client) =
     (1, [],
      connected_client\<lparr>effects := effects connected_client
         @ [After (LogCommand (TextExc ''ERROR receiving data: '' (ValueError 1 1))),
            After DisconnectCall]\<rparr>) \<and>
   speed (telemetry_data (snd (snd (receive_loop noon
            [Data (''TLM speed=10;garbage;dir=S'' @ [newline])] (0, [], connected_client))))) = ''0.0'' \<and>
   direction (telemetry_data (snd (snd (receive_loop noon
            [Data (''TLM speed=10;garbage;dir=S'' @ [newline])] (0, [], connected_client))))) = ''N''"
proof -
  have flags: "should_receive connected_client" "is_connected connected_client"
      "server_socket connected_client = Some 0"
    by (simp_all add: connected_client_eq)
  have data: "''TLM speed=10;garbage;dir=S'' @ [newline] \<noteq> []"
      "[] @ (''TLM speed=10;garbage;dir=S'' @ [newline]) = ''TLM speed=10;garbage;dir=S'' @ newline # []"
      "newline \<notin> set ''TLM speed=10;garbage;dir=S''"
    by (simp_all add: newline_def)
  have l: "receive_loop noon [Data (''TLM speed=10;garbage;dir=S'' @ [newline])] (0, [], connected_client) =
     (1, [],
      connected_client\<lparr>effects := effects connected_client
         @ [After (LogCommand (TextExc ''ERROR receiving data: '' (ValueError 1 1))),
            After DisconnectCall]\<rparr>)"
    using receive_loop_line_raises [OF flags data handle_garbage, where clock = noon and n = 0
        and reads = "[]"]
    by simp
  show ?thesis
    unfolding l by (simp add: handle_garbage connected_client_eq)
qed

text \<open>
  C1, as the code has it. A line that contains the telemetry marker and in which some part between
  semicolons does not split at \<^verbatim>\<open>=\<close> into exactly two pieces raises \<^verbatim>\<open>ValueError\<close>
  for the first such part, whatever the object and the time: no pair of the line reaches
  the snapshot and no warning is logged. When it is the next complete line of the buffer
  of a running loop, the loop hands a receive-error log and \<^verbatim>\<open>disconnect\<close> over to the
  main loop and ends there, the object otherwise unchanged.
\<close>

theorem C1_malformed_pair_raises:
  assumes tlm: "sublist ''TLM'' (strip raw)"
    and bad: "\<exists>x\<in>set (telemetry_pairs (strip raw)). length x \<noteq> 2"
    and flags: "should_receive s" "is_connected s" "server_socket s = Some k"
    and data: "data \<noteq> []" "buffer @ data = raw @ newline # rest" "newline \<notin> set raw"
  shows "\<exists>j<length (telemetry_pairs (strip raw)).
           length (telemetry_pairs (strip raw) ! j) \<noteq> 2 \<and>
           (\<forall>j'<j. length (telemetry_pairs (strip raw) ! j') = 2) \<and>
           handle_line now s raw = Inl (ValueError j (length (telemetry_pairs (strip raw) ! j))) \<and>
           receive_loop clock (Data data # reads) (n, buffer, s) =
             (Suc n, rest,
              s\<lparr>effects := effects s
                 @ [After (LogCommand (TextExc ''ERROR receiving data: ''
                             (ValueError j (length (telemetry_pairs (strip raw) ! j))))),
                    After DisconnectCall]\<rparr>)"
proof -
  from py_dict_bad [OF bad, of 0 Map.empty]
  obtain j where j: "j < length (telemetry_pairs (strip raw))"
      "length (telemetry_pairs (strip raw) ! j) \<noteq> 2"
      "\<forall>j'<j. length (telemetry_pairs (strip raw) ! j') = 2"
      "py_dict 0 Map.empty (telemetry_pairs (strip raw))
         = Inl (ValueError j (length (telemetry_pairs (strip raw) ! j)))"
    by auto
  from tlm have ne: "strip raw \<noteq> []" by auto
  have h: "handle_line now s raw = Inl (ValueError j (length (telemetry_pairs (strip raw) ! j)))"
    for now
    using tlm ne j(4) by (simp add: handle_line_def handle_telemetry_def)
  have "receive_loop clock (Data data # reads) (n, buffer, s) =
             (Suc n, rest,
              s\<lparr>effects := effects s
                 @ [After (LogCommand (TextExc ''ERROR receiving data: ''
                             (ValueError j (length (telemetry_pairs (strip raw) ! j))))),
                    After DisconnectCall]\<rparr>)"
    using flags data h by (rule receive_loop_line_raises)
  with j h show ?thesis by blast
qed

theorem C1_malformed_pair_raises_witness:
  "sublist ''TLM'' (strip ''TLM speed=10;garbage;dir=S'') \<and>
   telemetry_pairs (strip ''TLM speed=10;garbage;dir=S'')
     = [[''speed'', ''10''], [''garbage''], [''dir'', ''S'']] \<and>
   should_receive connected_client \<and> is_connected connected_client \<and>
   server_socket connected_client = Some 0 \<and>
   newline \<notin> set ''TLM speed=10;garbage;dir=S'' \<and>
   receive_loop noon
       [Data (''TLM speed=10;garbage;dir=S'' @ [newline] @ ''OK''), Data ''more'']
       (0, [], connected_client) =
     (1, ''OK'',
      connected_client\<lparr>effects := effects connected_client
         @ [After (LogCommand (TextExc ''ERROR receiving data: '' (ValueError 1 1))),
            After DisconnectCall]\<rparr>)"
proof -
  have tlm: "sublist ''TLM'' (strip ''TLM speed=10;garbage;dir=S'')"
    by (simp add: strip_garbage sublist_code)
  have bad: "\<exists>x\<in>set (telemetry_pairs (strip ''TLM speed=10;garbage;dir=S'')). length x \<noteq> 2"
    by (simp add: strip_garbage pairs_garbage)
  have flags: "should_receive connected_client" "is_connected connected_client"
      "server_socket connected_client = Some 0"
    by (simp_all add: connected_client_eq)
  have data: "''TLM speed=10;garbage;dir=S'' @ [newline] @ ''OK'' \<noteq> []"
      "[] @ (''TLM speed=10;garbage;dir=S'' @ [newline] @ ''OK'')
         = ''TLM speed=10;garbage;dir=S'' @ newline # ''OK''"
      "newline \<notin> set ''TLM speed=10;garbage;dir=S''"
    by (simp_all add: newline_def)
  from C1_malformed_pair_raises [OF tlm bad flags data, where now = "''12:00:00''"
      and clock = noon and reads = "[Data ''more'']" and n = 0]
  obtain j where
    h: "handle_line ''12:00:00'' connected_client ''TLM speed=10;garbage;dir=S''
          = Inl (ValueError j (length (telemetry_pairs (strip ''TLM speed=10;garbage;dir=S'') ! j)))"
    and l: "receive_loop noon
          (Data (''TLM speed=10;garbage;dir=S'' @ [newline] @ ''OK'') # [Data ''more''])
          (0, [], connected_client) =
        (Suc 0, ''OK'',
         connected_client\<lparr>effects := effects connected_client
            @ [After (LogCommand (TextExc ''ERROR receiving data: ''
                 (ValueError j (length (telemetry_pairs (strip ''TLM speed=10;garbage;dir=S'') ! j))))),
               After DisconnectCall]\<rparr>)"
    by blast
  from h have j: "j = 1" "length (telemetry_pairs (strip ''TLM speed=10;garbage;dir=S'') ! j) = 1"
    by (simp_all add: handle_garbage)
  show ?thesis
    using tlm flags data(3) l
    by (simp only: j strip_garbage pairs_garbage One_nat_def) simp
qed

lemma handle_marker_only: "handle_line now s ''TLM'' = Inl (ValueError 0 1)"
  by (simp add: handle_line_def handle_telemetry_def telemetry_pairs_def strip_def strip_chars_def
      lstrip_chars_def py_whitespace_def sublist_code)

lemma handle_speed_10:
  "handle_line now s ''TLM speed=10'' =
     Inr (s\<lparr>telemetry_data := \<lparr> direction = ''N'', speed = ''10'', battery = ''0.0'',
                                  temperature = ''0.0'', time = now \<rparr>,
            effects := effects s @ [Direct (LogCommand (Text ''Telemetry received'')),
                                     After UpdateTelemetryDisplay]\<rparr>)"
  by (simp add: handle_line_def handle_telemetry_def telemetry_pairs_def strip_def strip_chars_def
      lstrip_chars_def py_whitespace_def sublist_code dict_get_def emit_def log_command_def)

text \<open>
  C3 at the line \<^verbatim>\<open>TLM\<close>, the marker with all five keys missing: handling it raises,
  so after \<^verbatim>\<open>TLM speed=10\<close> the speed stays 10 instead of falling back to its default,
  and the loop ends with the error log and the disconnect handed over.
\<close>

theorem C3_marker_only_counterexample:
  "handle_line ''12:00:00'' connected_client ''TLM'' = Inl (ValueError 0 1) \<and>
   receive_loop noon [Data (''TLM speed=10'' @ [newline] @ ''TLM'' @ [newline])]
       (0, [], connected_client) =
     (2, [],
      connected_client\<lparr>telemetry_data := \<lparr> direction = ''N'', speed = ''10'', battery = ''0.0'',
                                     temperature = ''0.0'', time = ''12:00:00'' \<rparr>,
         effects := effects connected_client
           @ [Direct (LogCommand (Text ''Telemetry received'')), After UpdateTelemetryDisplay,
              After (LogCommand (TextExc ''ERROR receiving data: '' (ValueError 0 1))),
              After DisconnectCall]\<rparr>)"
proof -
  have flags: "should_receive connected_client" "is_connected connected_client"
      "server_socket connected_client = Some 0"
    by (simp_all add: connected_client_eq)
  have n: "newline \<notin> set ''TLM speed=10''" "newline \<notin> set ''TLM''"
    by (simp_all add: newline_def)
  have pb: "process_buffer noon 0 (''TLM speed=10'' @ newline # ''TLM'' @ newline # []) connected_client =
      (Some (ValueError 0 1), 2, [],
       connected_client\<lparr>telemetry_data := \<lparr> direction = ''N'', speed = ''10'', battery = ''0.0'',
                                     temperature = ''0.0'', time = ''12:00:00'' \<rparr>,
         effects := effects connected_client
           @ [Direct (LogCommand (Text ''Telemetry received'')), After UpdateTelemetryDisplay]\<rparr>)"
    by (simp only: process_buffer_line [OF n(1)] process_buffer_line [OF n(2)] handle_speed_10
        handle_marker_only sum.case noon_def) simp
  have "receive_loop noon [Data (''TLM speed=10'' @ [newline] @ ''TLM'' @ [newline])]
       (0, [], connected_client) =
     (2, [],
      connected_client\<lparr>telemetry_data := \<lparr> direction = ''N'', speed = ''10'', battery = ''0.0'',
                                     temperature = ''0.0'', time = ''12:00:00'' \<rparr>,
         effects := effects connected_client
           @ [Direct (LogCommand (Text ''Telemetry received'')), After UpdateTelemetryDisplay,
              After (LogCommand (TextExc ''ERROR receiving data: '' (ValueError 0 1))),
              After DisconnectCall]\<rparr>)"
    using flags pb by (simp add: receive_once_def on_receive_error_def emit_def)
  with handle_marker_only show ?thesis by simp
qed

subsection \<open>Partial acknowledgements\<close>

lemma handle_line_dir:
  assumes "strip raw \<noteq> []" "\<not> sublist ''TLM'' (strip raw)" "sublist ''dir'' (strip raw)"
  shows "handle_line now s raw = handle_dir s (strip raw)"
  using assms by (simp add: handle_line_def Let_def)

lemma handle_line_speed:
  assumes "strip raw \<noteq> []" "\<not> sublist ''TLM'' (strip raw)" "\<not> sublist ''dir'' (strip raw)"
    "sublist ''speed'' (strip raw)"
  shows "handle_line now s raw = handle_speed s (strip raw)"
  using assms by (simp add: handle_line_def Let_def)

text \<open>
  C2, as the code has it. A line that is not empty once trimmed, has no telemetry marker
  and has a \<^verbatim>\<open>=\<close> yields a value; when the line contains \<^verbatim>\<open>dir\<close> the direction, and
  when it contains \<^verbatim>\<open>speed\<close> but not \<^verbatim>\<open>dir\<close> the speed, is set to that value, no other
  field of the snapshot changes, and the display is updated by a direct call. With
  several \<^verbatim>\<open>=\<close> in the line the value is the text between the first two. With a single
  \<^verbatim>\<open>=\<close> it is the text behind it less the characters O, K and space at its end; when
  that text is empty or does not end in one of them, the value is the token after the
  last \<^verbatim>\<open>=\<close>, as the specification has it.
\<close>

theorem C2_partial_ack_field:
  assumes ne: "strip raw \<noteq> []" and tlm: "\<not> sublist ''TLM'' (strip raw)"
    and eq: "CHR ''='' \<in> set (strip raw)"
  shows
    "\<exists>v. ack_value (strip raw) = Inr v \<and>
       (sublist ''dir'' (strip raw) \<longrightarrow>
          handle_line now s raw =
            Inr (s\<lparr>telemetry_data := (telemetry_data s)\<lparr>direction := v\<rparr>,
                   effects := effects s @ [Direct UpdateTelemetryDisplay]\<rparr>)) \<and>
       (\<not> sublist ''dir'' (strip raw) \<and> sublist ''speed'' (strip raw) \<longrightarrow>
          handle_line now s raw =
            Inr (s\<lparr>telemetry_data := (telemetry_data s)\<lparr>speed := v\<rparr>,
                   effects := effects s @ [Direct UpdateTelemetryDisplay]\<rparr>)) \<and>
       (\<forall>a b c. strip raw = a @ CHR ''='' # b @ CHR ''='' # c \<and>
                CHR ''='' \<notin> set a \<and> CHR ''='' \<notin> set b \<longrightarrow> v = b) \<and>
       (\<forall>a b. strip raw = a @ CHR ''='' # b \<and> CHR ''='' \<notin> set a \<and> CHR ''='' \<notin> set b \<longrightarrow>
                v = rev (dropWhile (\<lambda>c. c \<in> set ''OK '') (rev b)) \<and>
                (b = [] \<or> last b \<notin> set ''OK '' \<longrightarrow> v = b \<and> spec_ack_value (strip raw) = b))"
proof -
  from ack_value_Inr [OF eq] obtain v where v: "ack_value (strip raw) = Inr v" ..
  have d: "handle_line now s raw =
            Inr (s\<lparr>telemetry_data := (telemetry_data s)\<lparr>direction := v\<rparr>,
                   effects := effects s @ [Direct UpdateTelemetryDisplay]\<rparr>)"
    if "sublist ''dir'' (strip raw)"
    using handle_line_dir [OF ne tlm that] by (simp add: handle_dir_def v emit_def)
  have sp: "handle_line now s raw =
            Inr (s\<lparr>telemetry_data := (telemetry_data s)\<lparr>speed := v\<rparr>,
                   effects := effects s @ [Direct UpdateTelemetryDisplay]\<rparr>)"
    if "\<not> sublist ''dir'' (strip raw) \<and> sublist ''speed'' (strip raw)"
    using handle_line_speed [OF ne tlm] that by (simp add: handle_speed_def v emit_def)
  have two: "v = b"
    if "strip raw = a @ CHR ''='' # b @ CHR ''='' # c \<and> CHR ''='' \<notin> set a \<and> CHR ''='' \<notin> set b"
    for a b c
    using that v ack_value_two_eq [of a b c] by simp
  have one: "v = rev (dropWhile (\<lambda>c. c \<in> set ''OK '') (rev b))"
    if "strip raw = a @ CHR ''='' # b \<and> CHR ''='' \<notin> set a \<and> CHR ''='' \<notin> set b"
    for a b
    using that v ack_value_one_eq [of a b] by simp
  have clean: "v = b \<and> spec_ack_value (strip raw) = b"
    if h: "strip raw = a @ CHR ''='' # b \<and> CHR ''='' \<notin> set a \<and> CHR ''='' \<notin> set b"
      and e: "b = [] \<or> last b \<notin> set ''OK ''"
    for a b
  proof -
    from e have "dropWhile (\<lambda>c. c \<in> set ''OK '') (rev b) = rev b"
      by (cases b rule: rev_cases) auto
    with one [OF h] have "v = b" by simp
    moreover from h have "spec_ack_value (strip raw) = b"
      by (simp add: spec_ack_value_one_eq)
    ultimately show ?thesis ..
  qed
  from v d sp two one clean show ?thesis
    by (intro exI [of _ v]) blast
qed

lemma strip_ok_dir: "strip ''OK dir=W'' = ''OK dir=W''"
  by (simp add: strip_def strip_chars_def lstrip_chars_def py_whitespace_def)

theorem C2_partial_ack_field_witness:
  "strip ''OK dir=W'' \<noteq> [] \<and> \<not> sublist ''TLM'' (strip ''OK dir=W'') \<and>
   CHR ''='' \<in> set (strip ''OK dir=W'') \<and> sublist ''dir'' (strip ''OK dir=W'') \<and>
   strip ''OK dir=W'' = ''OK dir'' @ CHR ''='' # ''W'' \<and>
   CHR ''='' \<notin> set ''OK dir'' \<and> CHR ''='' \<notin> set ''W'' \<and> last ''W'' \<notin> set ''OK '' \<and>
   handle_line ''12:00:00'' connected_client ''OK dir=W'' =
     Inr (connected_client\<lparr>telemetry_data := (telemetry_data connected_client)\<lparr>direction := ''W''\<rparr>,
            effects := effects connected_client @ [Direct UpdateTelemetryDisplay]\<rparr>) \<and>
   spec_ack_value (strip ''OK dir=W'') = ''W''"
proof -
  have h: "strip ''OK dir=W'' \<noteq> []" "\<not> sublist ''TLM'' (strip ''OK dir=W'')"
      "CHR ''='' \<in> set (strip ''OK dir=W'')"
    by (simp_all add: strip_ok_dir sublist_code)
  have d: "sublist ''dir'' (strip ''OK dir=W'')"
    by (simp add: strip_ok_dir sublist_code)
  have f: "strip ''OK dir=W'' = ''OK dir'' @ CHR ''='' # ''W'' \<and>
      CHR ''='' \<notin> set ''OK dir'' \<and> CHR ''='' \<notin> set ''W''"
    and g: "''W'' = [] \<or> last ''W'' \<notin> set ''OK ''"
    by (simp_all add: strip_ok_dir)
  from C2_partial_ack_field [OF h, where now = "''12:00:00''" and s = connected_client]
  obtain v where dir: "sublist ''dir'' (strip ''OK dir=W'') \<longrightarrow>
          handle_line ''12:00:00'' connected_client ''OK dir=W'' =
            Inr (connected_client\<lparr>telemetry_data := (telemetry_data connected_client)\<lparr>direction := v\<rparr>,
                   effects := effects connected_client @ [Direct UpdateTelemetryDisplay]\<rparr>)"
    and one: "\<forall>a b. strip ''OK dir=W'' = a @ CHR ''='' # b \<and> CHR ''='' \<notin> set a \<and> CHR ''='' \<notin> set b \<longrightarrow>
                v = rev (dropWhile (\<lambda>c. c \<in> set ''OK '') (rev b)) \<and>
                (b = [] \<or> last b \<notin> set ''OK '' \<longrightarrow> v = b \<and> spec_ack_value (strip ''OK dir=W'') = b)"
    by blast
  from one f g have v: "v = ''W''" and sp: "spec_ack_value (strip ''OK dir=W'') = ''W''"
    by blast+
  from dir d v have "handle_line ''12:00:00'' connected_client ''OK dir=W'' =
     Inr (connected_client\<lparr>telemetry_data := (telemetry_data connected_client)\<lparr>direction := ''W''\<rparr>,
            effects := effects connected_client @ [Direct UpdateTelemetryDisplay]\<rparr>)"
    by blast
  with h d f sp show ?thesis by simp
qed

lemma strip_dir_ab: "strip ''dir=a=b'' = ''dir=a=b''"
  by (simp add: strip_def strip_chars_def lstrip_chars_def py_whitespace_def)

lemma strip_ok_dir_ok: "strip ''OK dir=OK'' = ''OK dir=OK''"
  by (simp add: strip_def strip_chars_def lstrip_chars_def py_whitespace_def)

text \<open>
  C2 at the lines \<^verbatim>\<open>dir=a=b\<close> and \<^verbatim>\<open>OK dir=OK\<close>, where the code and the rule of the
  specification part: with two \<^verbatim>\<open>=\<close> the code takes what lies between them, not what
  follows the last one, and a value made of the letters O and K is stripped away.
\<close>

theorem C2_partial_ack_counterexample:
  "handle_line ''12:00:00'' connected_client ''dir=a=b'' =
     Inr (connected_client\<lparr>telemetry_data := (telemetry_data connected_client)\<lparr>direction := ''a''\<rparr>,
            effects := effects connected_client @ [Direct UpdateTelemetryDisplay]\<rparr>) \<and>
   spec_ack_value (strip ''dir=a=b'') = ''b'' \<and>
   handle_line ''12:00:00'' connected_client ''OK dir=OK'' =
     Inr (connected_client\<lparr>telemetry_data := (telemetry_data connected_client)\<lparr>direction := ''''\<rparr>,
            effects := effects connected_client @ [Direct UpdateTelemetryDisplay]\<rparr>) \<and>
   spec_ack_value (strip ''OK dir=OK'') = ''OK''"
  by (simp add: handle_line_def handle_dir_def ack_value_def index1_def strip_dir_ab
      strip_ok_dir_ok strip_chars_def lstrip_chars_def sublist_code emit_def spec_ack_value_def)

text \<open>
  C9. Both partial acknowledgements update the display by a direct call from the receive
  loop, and the telemetry branch logs by a direct call, while the telemetry update itself
  and the server messages go through \<^verbatim>\<open>after\<close>.
\<close>

theorem C9_partial_ack_direct_call:
  "handle_line now s ''OK dir=W'' =
     Inr (s\<lparr>telemetry_data := (telemetry_data s)\<lparr>direction := ''W''\<rparr>,
            effects := effects s @ [Direct UpdateTelemetryDisplay]\<rparr>) \<and>
   handle_line now s ''OK speed=15'' =
     Inr (s\<lparr>telemetry_data := (telemetry_data s)\<lparr>speed := ''15''\<rparr>,
            effects := effects s @ [Direct UpdateTelemetryDisplay]\<rparr>) \<and>
   handle_line now s ''TLM dir=E'' =
     Inr (s\<lparr>telemetry_data := \<lparr> direction = ''E'', speed = ''0.0'', battery = ''0.0'',
                                  temperature = ''0.0'', time = now \<rparr>,
            effects := effects s @ [Direct (LogCommand (Text ''Telemetry received'')),
                                     After UpdateTelemetryDisplay]\<rparr>)"
  by (simp add: handle_line_def handle_dir_def handle_speed_def handle_telemetry_def
      telemetry_pairs_def ack_value_def index1_def dict_get_def
      strip_def strip_chars_def lstrip_chars_def py_whitespace_def sublist_code emit_def log_command_def)

end
